theory Spec2Isabelle
  imports Complex_Main
begin

section \<open>Time values and calendar arithmetic of the host language\<close>

text \<open>
  The attendance code works on JavaScript \<open>Date\<close> objects. A \<open>Date\<close> holds a time value,
  a number of milliseconds since 1970-01-01 00:00, or is an Invalid Date. All operations
  the code uses are the local-time ones (\<open>new Date(y, m, d)\<close>, \<open>setMonth\<close>, \<open>setHours\<close>,
  \<open>getMonth\<close>, \<open>getDay\<close>, \<open>toLocaleDateString\<close>) and differences of two dates, so time
  values are kept in local time throughout: the zone offset is taken to be constant
  (the application runs in Japan, which has no daylight saving), and a constant offset
  cancels in every difference and every comparison. The definitions below follow the
  abstract operations of the ECMAScript specification, with their names.
\<close>

definition msPerDay :: int where
  "msPerDay = 86400000"

definition msPerHour :: int where
  "msPerHour = 3600000"

definition msPerMinute :: int where
  "msPerMinute = 60000"

definition msPerSecond :: int where
  "msPerSecond = 1000"

definition Day :: "int \<Rightarrow> int" where
  "Day t = t div msPerDay"

definition TimeWithinDay :: "int \<Rightarrow> int" where
  "TimeWithinDay t = t mod msPerDay"

definition DaysInYear :: "int \<Rightarrow> int" where
  "DaysInYear y =
     (if y mod 4 \<noteq> 0 then 365
      else if y mod 100 \<noteq> 0 then 366
      else if y mod 400 \<noteq> 0 then 365
      else 366)"

definition DayFromYear :: "int \<Rightarrow> int" where
  "DayFromYear y =
     365 * (y - 1970) + (y - 1969) div 4 - (y - 1901) div 100 + (y - 1601) div 400"

lemma div_succ:
  fixes n k :: int
  assumes "0 < k"
  shows "(n + 1) div k = n div k + (if (n + 1) mod k = 0 then 1 else 0)"
proof -
  define q where "q = n div k"
  define r where "r = n mod k"
  have n: "n = k * q + r" by (simp add: q_def r_def)
  have r: "0 \<le> r" "r < k" using assms by (simp_all add: r_def)
  show ?thesis
  proof (cases "r = k - 1")
    case True
    then have e: "n + 1 = k * (q + 1) + 0" using n by (simp add: algebra_simps)
    have "(n + 1) div k = q + 1" by (rule int_div_pos_eq [OF e]) (use assms in simp_all)
    moreover have "(n + 1) mod k = 0" by (rule int_mod_pos_eq [OF e]) (use assms in simp_all)
    ultimately show ?thesis by (simp add: q_def)
  next
    case False
    have e: "n + 1 = k * q + (r + 1)" using n by simp
    have b: "0 \<le> r + 1" "r + 1 < k" using r False by simp_all
    have "(n + 1) div k = q" by (rule int_div_pos_eq [OF e b])
    moreover have "(n + 1) mod k = r + 1" by (rule int_mod_pos_eq [OF e b])
    ultimately show ?thesis using r by (simp add: q_def)
  qed
qed

lemma DayFromYear_Suc: "DayFromYear (y + 1) = DayFromYear y + DaysInYear y"
proof -
  have m4: "(y - 1968) mod 4 = y mod 4"
    using mod_mult_self2 [of y 4 "- 492"] by simp
  have m100: "(y - 1900) mod 100 = y mod 100"
    using mod_mult_self2 [of y 100 "- 19"] by simp
  have m400: "(y - 1600) mod 400 = y mod 400"
    using mod_mult_self2 [of y 400 "- 4"] by simp
  have a: "(y + 1 - 1969) div 4 = (y - 1969) div 4 + (if y mod 4 = 0 then 1 else 0)"
    using div_succ [of 4 "y - 1969"] m4 by simp
  have b: "(y + 1 - 1901) div 100 = (y - 1901) div 100 + (if y mod 100 = 0 then 1 else 0)"
    using div_succ [of 100 "y - 1901"] m100 by simp
  have c: "(y + 1 - 1601) div 400 = (y - 1601) div 400 + (if y mod 400 = 0 then 1 else 0)"
    using div_succ [of 400 "y - 1601"] m400 by simp
  have "y mod 400 mod 100 = y mod 100" "y mod 100 mod 4 = y mod 4"
    by (simp_all add: mod_mod_cancel)
  then have d: "y mod 400 = 0 \<Longrightarrow> y mod 100 = 0" "y mod 100 = 0 \<Longrightarrow> y mod 4 = 0"
    by auto
  show ?thesis
    unfolding DayFromYear_def DaysInYear_def a b c using d by auto
qed

lemma DaysInYear_pos: "0 < DaysInYear y"
  by (simp add: DaysInYear_def)

lemma DayFromYear_pred_less: "DayFromYear (y - 1) < DayFromYear y"
  using DayFromYear_Suc [of "y - 1"] DaysInYear_pos [of "y - 1"] by simp

text \<open>
  \<open>YearFromTime t\<close> is the largest year \<open>y\<close> whose first day is not after \<open>t\<close>. It is
  computed by a search from the estimate \<open>1970 + Day t div 365\<close>: first downwards to a year
  that starts on or before the day, then upwards while the next year does so as well.
\<close>

function yearNotAfter :: "int \<Rightarrow> int \<Rightarrow> int" where
  "yearNotAfter y d = (if d < DayFromYear y then yearNotAfter (y - 1) d else y)"
  by pat_completeness auto
termination
proof (relation "measure (\<lambda>(y, d). nat (DayFromYear y - d))")
  show "wf (measure (\<lambda>(y, d). nat (DayFromYear y - d)))" by simp
next
  fix y d :: int
  assume "d < DayFromYear y"
  then show "((y - 1, d), (y, d)) \<in> measure (\<lambda>(y, d). nat (DayFromYear y - d))"
    using DayFromYear_pred_less [of y] by simp
qed

function yearLast :: "int \<Rightarrow> int \<Rightarrow> int" where
  "yearLast y d = (if DayFromYear (y + 1) \<le> d then yearLast (y + 1) d else y)"
  by pat_completeness auto
termination
proof (relation "measure (\<lambda>(y, d). nat (d + 1 - DayFromYear (y + 1)))")
  show "wf (measure (\<lambda>(y, d). nat (d + 1 - DayFromYear (y + 1))))" by simp
next
  fix y d :: int
  assume "DayFromYear (y + 1) \<le> d"
  then show "((y + 1, d), (y, d)) \<in> measure (\<lambda>(y, d). nat (d + 1 - DayFromYear (y + 1)))"
    using DayFromYear_Suc [of "y + 1"] DaysInYear_pos [of "y + 1"] by simp
qed

declare yearNotAfter.simps [simp del] yearLast.simps [simp del]

definition YearFromDay :: "int \<Rightarrow> int" where
  "YearFromDay d = yearLast (yearNotAfter (1970 + d div 365) d) d"

definition YearFromTime :: "int \<Rightarrow> int" where
  "YearFromTime t = YearFromDay (Day t)"

definition InLeapYear :: "int \<Rightarrow> int" where
  "InLeapYear t = (if DaysInYear (YearFromTime t) = 366 then 1 else 0)"

definition DayWithinYear :: "int \<Rightarrow> int" where
  "DayWithinYear t = Day t - DayFromYear (YearFromTime t)"

definition MonthFromTime :: "int \<Rightarrow> int" where
  "MonthFromTime t =
     (let d = DayWithinYear t; l = InLeapYear t
      in if d < 31 then 0
         else if d < 59 + l then 1
         else if d < 90 + l then 2
         else if d < 120 + l then 3
         else if d < 151 + l then 4
         else if d < 181 + l then 5
         else if d < 212 + l then 6
         else if d < 243 + l then 7
         else if d < 273 + l then 8
         else if d < 304 + l then 9
         else if d < 334 + l then 10
         else 11)"

definition DateFromTime :: "int \<Rightarrow> int" where
  "DateFromTime t =
     (let d = DayWithinYear t; l = InLeapYear t; m = MonthFromTime t
      in if m = 0 then d + 1
         else if m = 1 then d - 30
         else if m = 2 then d - 58 - l
         else if m = 3 then d - 89 - l
         else if m = 4 then d - 119 - l
         else if m = 5 then d - 150 - l
         else if m = 6 then d - 180 - l
         else if m = 7 then d - 211 - l
         else if m = 8 then d - 242 - l
         else if m = 9 then d - 272 - l
         else if m = 10 then d - 303 - l
         else d - 333 - l)"

definition WeekDay :: "int \<Rightarrow> int" where
  "WeekDay t = (Day t + 4) mod 7"

text \<open>The number of days of the year \<open>y\<close> that precede its month \<open>m\<close> (0 is January).\<close>

definition daysBeforeMonth :: "int \<Rightarrow> int \<Rightarrow> int" where
  "daysBeforeMonth y m =
     (let l = (if DaysInYear y = 366 then 1 else 0)
      in if m = 0 then 0
         else if m = 1 then 31
         else if m = 2 then 59 + l
         else if m = 3 then 90 + l
         else if m = 4 then 120 + l
         else if m = 5 then 151 + l
         else if m = 6 then 181 + l
         else if m = 7 then 212 + l
         else if m = 8 then 243 + l
         else if m = 9 then 273 + l
         else if m = 10 then 304 + l
         else 334 + l)"

text \<open>The number of days of the month \<open>m\<close> (0 to 11) of the year \<open>y\<close>.\<close>

definition DaysInMonth :: "int \<Rightarrow> int \<Rightarrow> int" where
  "DaysInMonth y m =
     (if m = 11 then DaysInYear y else daysBeforeMonth y (m + 1)) - daysBeforeMonth y m"

text \<open>
  \<open>MakeDay\<close> accepts any month and any day of the month: a month outside \<open>0..11\<close> moves
  the year, a day outside the month runs over into the neighbouring months.
\<close>

definition MakeDay :: "int \<Rightarrow> int \<Rightarrow> int \<Rightarrow> int" where
  "MakeDay year month date =
     (let ym = year + month div 12; mn = month mod 12
      in DayFromYear ym + daysBeforeMonth ym mn + date - 1)"

definition MakeTime :: "int \<Rightarrow> int \<Rightarrow> int \<Rightarrow> int \<Rightarrow> int" where
  "MakeTime hour minute sec ms =
     hour * msPerHour + minute * msPerMinute + sec * msPerSecond + ms"

definition MakeDate :: "int \<Rightarrow> int \<Rightarrow> int" where
  "MakeDate day time = day * msPerDay + time"

text \<open>
  A time value beyond 8.64e15 ms makes an Invalid Date, here \<open>None\<close>. With the zone
  folded into the time stamps the limit is applied to the local time value, where the
  language applies it to the instant: the two differ by the zone offset, at the two
  ends of the range of dates only (about 270000 years from 1970).
\<close>

definition TimeClip :: "int \<Rightarrow> int option" where
  "TimeClip t = (if \<bar>t\<bar> \<le> 8640000000000000 then Some t else None)"

text \<open>\<open>new Date(year, month, date)\<close>: a year from 0 to 99 means 1900 + year.\<close>

definition newDate :: "int \<Rightarrow> int \<Rightarrow> int \<Rightarrow> int option" where
  "newDate year month date =
     (let yr = (if 0 \<le> year \<and> year \<le> 99 then 1900 + year else year)
      in TimeClip (MakeDate (MakeDay yr month date) (MakeTime 0 0 0 0)))"

text \<open>
  A \<open>Date\<close> object is an \<open>int option\<close>: its time value, or \<open>None\<close> for an Invalid Date.
  The methods that change a date in place return the new state of the object here.
  On an Invalid Date, and with an argument that is not a number, they leave an Invalid
  Date; a getter of an Invalid Date gives \<open>NaN\<close>, again \<open>None\<close>.
\<close>

definition getMonth :: "int option \<Rightarrow> int option" where
  "getMonth d = map_option MonthFromTime d"

definition getDay :: "int option \<Rightarrow> int option" where
  "getDay d = map_option WeekDay d"

definition setMonth :: "int option \<Rightarrow> int option \<Rightarrow> int option" where
  "setMonth d month =
     (case d of None \<Rightarrow> None
      | Some t \<Rightarrow>
          (case month of None \<Rightarrow> None
           | Some m \<Rightarrow>
               TimeClip (MakeDate (MakeDay (YearFromTime t) m (DateFromTime t))
                                  (TimeWithinDay t))))"

definition setHours :: "int option \<Rightarrow> int option \<Rightarrow> int option \<Rightarrow> int \<Rightarrow> int \<Rightarrow> int option" where
  "setHours d hour minute sec ms =
     (case d of None \<Rightarrow> None
      | Some t \<Rightarrow>
          (case hour of None \<Rightarrow> None
           | Some h \<Rightarrow>
               (case minute of None \<Rightarrow> None
                | Some m \<Rightarrow> TimeClip (MakeDate (Day t) (MakeTime h m sec ms)))))"


section \<open>Numbers of the host language\<close>

text \<open>
  A JavaScript number is an IEEE 754 double. Time values, their differences and the
  minute counts derived from them are integers far below \<open>2^53\<close>, where the arithmetic of
  doubles is exact and \<open>Math.floor(a / b)\<close> is the integer quotient (lemma
  \<open>floor_fdiv\<close> below); they are modelled as \<open>int\<close>. The hours of a day are fractions,
  and there rounding matters: a finite double is modelled as the real number it denotes,
  and every operation rounds its exact result to the nearest double, ties to the even
  significand (53 bits). Exponent range and special values are left out: the values
  below are neither huge nor tiny.
\<close>

fun floorlog2 :: "nat \<Rightarrow> nat" where
  "floorlog2 n = (if n < 2 then 0 else Suc (floorlog2 (n div 2)))"

declare floorlog2.simps [simp del]

text \<open>For \<open>0 < x\<close>, the exponent \<open>e\<close> with \<open>2^e \<le> x < 2^(e+1)\<close>.\<close>

definition binaryExponent :: "real \<Rightarrow> int" where
  "binaryExponent x =
     (if 1 \<le> x then int (floorlog2 (nat \<lfloor>x\<rfloor>))
      else - int (floorlog2 (nat (\<lceil>1 / x\<rceil> - 1))) - 1)"

definition roundTiesToEven :: "real \<Rightarrow> int" where
  "roundTiesToEven n =
     (let f = \<lfloor>n\<rfloor>; r = n - of_int f
      in if r < 1 / 2 then f
         else if 1 / 2 < r then f + 1
         else if even f then f
         else f + 1)"

definition roundToDouble :: "real \<Rightarrow> real" where
  "roundToDouble x =
     (if x = 0 then 0
      else let e = binaryExponent \<bar>x\<bar>
           in if 52 \<le> e
              then sgn x * of_int (roundTiesToEven (\<bar>x\<bar> / 2 ^ nat (e - 52))) * 2 ^ nat (e - 52)
              else sgn x * of_int (roundTiesToEven (\<bar>x\<bar> * 2 ^ nat (52 - e))) / 2 ^ nat (52 - e))"

definition fdiv :: "real \<Rightarrow> real \<Rightarrow> real" where
  "fdiv a b = roundToDouble (a / b)"

definition fsub :: "real \<Rightarrow> real \<Rightarrow> real" where
  "fsub a b = roundToDouble (a - b)"

definition fmul :: "real \<Rightarrow> real \<Rightarrow> real" where
  "fmul a b = roundToDouble (a * b)"

text \<open>The remainder operator \<open>%\<close> truncates: the result has the sign of the dividend.\<close>

definition jsRem :: "int \<Rightarrow> int \<Rightarrow> int" where
  "jsRem a b = sgn a * (\<bar>a\<bar> mod \<bar>b\<bar>)"

text \<open>
  \<open>Number(s)\<close> on a string of decimal digits, the form of the two halves of an
  \<open>HH:MM\<close> setting; the empty string is 0. Every other text counts as \<open>NaN\<close>, here
  \<open>None\<close>. The language reads more texts as numbers (white space around the digits, a
  sign, a fraction, an exponent, hexadecimal digits); for such a setting the model and
  the code differ, and every result below that depends on the settings is about
  settings of the form \<open>HH:MM\<close>.
\<close>

definition digitValue :: "char \<Rightarrow> int option" where
  "digitValue c =
     map_of [(CHR ''0'', 0), (CHR ''1'', 1), (CHR ''2'', 2), (CHR ''3'', 3), (CHR ''4'', 4),
             (CHR ''5'', 5), (CHR ''6'', 6), (CHR ''7'', 7), (CHR ''8'', 8), (CHR ''9'', 9)] c"

fun digitsValue :: "int \<Rightarrow> string \<Rightarrow> int option" where
  "digitsValue acc [] = Some acc"
| "digitsValue acc (c # cs) =
     (case digitValue c of None \<Rightarrow> None | Some v \<Rightarrow> digitsValue (10 * acc + v) cs)"

definition Number :: "string \<Rightarrow> int option" where
  "Number s = digitsValue 0 s"

text \<open>\<open>s.split(c)\<close> for a separator of one character.\<close>

fun split :: "char \<Rightarrow> string \<Rightarrow> string list" where
  "split c [] = [[]]"
| "split c (x # xs) =
     (if x = c then [] # split c xs
      else (case split c xs of [] \<Rightarrow> [[x]] | w # ws \<Rightarrow> (x # w) # ws))"

text \<open>
  \<open>const [h, m] = s.split(':').map(Number)\<close>: the first two fields as numbers; a missing
  field is \<open>undefined\<close>, which is not a number either.
\<close>

definition splitHourMinute :: "string \<Rightarrow> int option \<times> int option" where
  "splitHourMinute s =
     (case map Number (split (CHR '':'') s) of
        [] \<Rightarrow> (None, None)
      | [h] \<Rightarrow> (h, None)
      | h # m # _ \<Rightarrow> (h, m))"

section \<open>Attendance records and employee settings\<close>

datatype recordType =
  clock_in | clock_out | break_start | break_end | paid_leave | absence | other_type string

text \<open>
  One document of the \<open>attendance\<close> collection. \<open>timestamp\<close> is the time value of
  \<open>timestamp.toDate()\<close>; an absent \<open>pcIdentifier\<close> is the empty string, which the code
  cannot tell from an absent one.
\<close>

record attendance =
  userId :: string
  userName :: string
  type :: recordType
  timestamp :: int
  pcIdentifier :: string

text \<open>
  The working-time settings. A field that is absent is represented by the falsy value of
  its type (the empty string, zero), which \<open>||\<close> replaces by the default just as it
  replaces the absent field.
\<close>

record settings =
  startTime :: string
  endTime :: string
  breakTime :: int
  standardWorkTime :: real

definition DEFAULT_SETTINGS :: settings where
  "DEFAULT_SETTINGS =
     \<lparr>startTime = ''09:00'', endTime = ''18:00'', breakTime = 60, standardWorkTime = 8\<rparr>"

section \<open>The closing-day period (monthly.js, calculatePeriod)\<close>

definition calculatePeriod :: "int \<Rightarrow> int \<Rightarrow> int \<Rightarrow> int option \<times> int option" where
  "calculatePeriod year month closingDay =
     (let periodStart = newDate year (month - 1) (closingDay + 1);
          periodStart = setMonth periodStart (map_option (\<lambda>m. m - 1) (getMonth periodStart));
          periodStart = setHours periodStart (Some 0) (Some 0) 0 0;
          periodEnd = newDate year (month - 1) closingDay;
          periodEnd = setHours periodEnd (Some 23) (Some 59) 59 999
      in (periodStart, periodEnd))"

section \<open>One day of work (monthly.js, calculateDayWorkData)\<close>

definition isHoliday :: "int option \<Rightarrow> bool" where
  "isHoliday date = (let day = getDay date in day = Some 0 \<or> day = Some 6)"

record dayWorkData =
  workMinutes :: int
  workHours :: real
  overtimeMinutes :: int
  overtimeHours :: real
  lateMinutes :: int
  isLate :: bool
  earlyLeaveMinutes :: int
  isEarlyLeave :: bool
  isHolidayWork :: bool

text \<open>
  \<open>employeeConfig?.field || DEFAULT_SETTINGS.field\<close>, for a text and for a number. The
  argument \<open>employeeConfig\<close> may be \<open>null\<close>; so may \<open>date\<close>, a \<open>Date\<close> object otherwise.
\<close>

definition textSetting :: "(settings \<Rightarrow> string) \<Rightarrow> settings option \<Rightarrow> string" where
  "textSetting field employeeConfig =
     (case employeeConfig of
        None \<Rightarrow> field DEFAULT_SETTINGS
      | Some c \<Rightarrow> if field c = [] then field DEFAULT_SETTINGS else field c)"

definition numberSetting :: "(settings \<Rightarrow> real) \<Rightarrow> settings option \<Rightarrow> real" where
  "numberSetting field employeeConfig =
     (case employeeConfig of
        None \<Rightarrow> field DEFAULT_SETTINGS
      | Some c \<Rightarrow> if field c = 0 then field DEFAULT_SETTINGS else field c)"

definition calculateDayWorkData ::
    "attendance list \<Rightarrow> settings option \<Rightarrow> int option option \<Rightarrow> dayWorkData option" where
  "calculateDayWorkData dayRecords employeeConfig date =
     (case find (\<lambda>r. type r = clock_in) dayRecords of
        None \<Rightarrow> None
      | Some clockIn \<Rightarrow>
          (case find (\<lambda>r. type r = clock_out) dayRecords of
             None \<Rightarrow> None
           | Some clockOut \<Rightarrow>
               (let clockInTime = timestamp clockIn;
                    clockOutTime = timestamp clockOut;
                    totalMs = clockOutTime - clockInTime;
                    wMinutes = totalMs div (1000 * 60);
                    wHours = fdiv (of_int wMinutes) 60;
                    standardWorkHours = numberSetting standardWorkTime employeeConfig;
                    oHours = max 0 (fsub wHours standardWorkHours);
                    oMinutes = \<lfloor>fmul oHours 60\<rfloor>;
                    (startHour, startMinute) = splitHourMinute (textSetting startTime employeeConfig);
                    standardStart = setHours (Some clockInTime) startHour startMinute 0 0;
                    late = (case standardStart of
                              None \<Rightarrow> 0
                            | Some s \<Rightarrow> if s < clockInTime
                                        then (clockInTime - s) div (1000 * 60) else 0);
                    (endHour, endMinute) = splitHourMinute (textSetting endTime employeeConfig);
                    standardEnd = setHours (Some clockOutTime) endHour endMinute 0 0;
                    early = (case standardEnd of
                               None \<Rightarrow> 0
                             | Some e \<Rightarrow> if clockOutTime < e
                                         then (e - clockOutTime) div (1000 * 60) else 0);
                    workDate = (case date of None \<Rightarrow> Some clockInTime | Some d \<Rightarrow> d)
                in Some \<lparr>workMinutes = wMinutes,
                         workHours = wHours,
                         overtimeMinutes = oMinutes,
                         overtimeHours = oHours,
                         lateMinutes = late,
                         isLate = (0 < late),
                         earlyLeaveMinutes = early,
                         isEarlyLeave = (0 < early),
                         isHolidayWork = isHoliday workDate\<rparr>)))"


section \<open>One day of work on a host in a given time zone\<close>

text \<open>
  The time value inside a \<open>Date\<close> is an instant, counted in UTC; \<open>setHours\<close> and
  \<open>getDay\<close> go through the local time of the host that runs the code. Above, the zone
  is folded into the time stamps. Here it is a parameter: \<open>tza\<close> is the offset of the
  host's zone from UTC in milliseconds (\<open>LocalTZA\<close>, constant), the time stamps are
  instants, and local time is \<open>LocalTime t = t + tza\<close>, with \<open>UTC\<close> its inverse.
\<close>

definition LocalTime :: "int \<Rightarrow> int \<Rightarrow> int" where
  "LocalTime tza t = t + tza"

definition UTC :: "int \<Rightarrow> int \<Rightarrow> int" where
  "UTC tza t = t - tza"

text \<open>\<open>setHours\<close> sets the wall-clock time of the local day and stores the instant.\<close>

definition setHoursAt ::
    "int \<Rightarrow> int option \<Rightarrow> int option \<Rightarrow> int option \<Rightarrow> int \<Rightarrow> int \<Rightarrow> int option" where
  "setHoursAt tza d hour minute sec ms =
     (case d of None \<Rightarrow> None
      | Some t \<Rightarrow>
          (case hour of None \<Rightarrow> None
           | Some h \<Rightarrow>
               (case minute of None \<Rightarrow> None
                | Some m \<Rightarrow>
                    TimeClip (UTC tza (MakeDate (Day (LocalTime tza t))
                                                (MakeTime h m sec ms))))))"

text \<open>\<open>getDay\<close> is the weekday of the local day.\<close>

definition getDayAt :: "int \<Rightarrow> int option \<Rightarrow> int option" where
  "getDayAt tza d = map_option (\<lambda>t. WeekDay (LocalTime tza t)) d"

definition isHolidayAt :: "int \<Rightarrow> int option \<Rightarrow> bool" where
  "isHolidayAt tza date = (let day = getDayAt tza date in day = Some 0 \<or> day = Some 6)"

text \<open>
  \<open>calculateDayWorkData\<close> as it runs on a host whose zone is \<open>tza\<close> ahead of UTC: the
  same statements, with the two local-time methods of that host.
\<close>

definition calculateDayWorkDataAt ::
    "int \<Rightarrow> attendance list \<Rightarrow> settings option \<Rightarrow> int option option \<Rightarrow> dayWorkData option" where
  "calculateDayWorkDataAt tza dayRecords employeeConfig date =
     (case find (\<lambda>r. type r = clock_in) dayRecords of
        None \<Rightarrow> None
      | Some clockIn \<Rightarrow>
          (case find (\<lambda>r. type r = clock_out) dayRecords of
             None \<Rightarrow> None
           | Some clockOut \<Rightarrow>
               (let clockInTime = timestamp clockIn;
                    clockOutTime = timestamp clockOut;
                    totalMs = clockOutTime - clockInTime;
                    wMinutes = totalMs div (1000 * 60);
                    wHours = fdiv (of_int wMinutes) 60;
                    standardWorkHours = numberSetting standardWorkTime employeeConfig;
                    oHours = max 0 (fsub wHours standardWorkHours);
                    oMinutes = \<lfloor>fmul oHours 60\<rfloor>;
                    (startHour, startMinute) = splitHourMinute (textSetting startTime employeeConfig);
                    standardStart = setHoursAt tza (Some clockInTime) startHour startMinute 0 0;
                    late = (case standardStart of
                              None \<Rightarrow> 0
                            | Some s \<Rightarrow> if s < clockInTime
                                        then (clockInTime - s) div (1000 * 60) else 0);
                    (endHour, endMinute) = splitHourMinute (textSetting endTime employeeConfig);
                    standardEnd = setHoursAt tza (Some clockOutTime) endHour endMinute 0 0;
                    early = (case standardEnd of
                               None \<Rightarrow> 0
                             | Some e \<Rightarrow> if clockOutTime < e
                                         then (e - clockOutTime) div (1000 * 60) else 0);
                    workDate = (case date of None \<Rightarrow> Some clockInTime | Some d \<Rightarrow> d)
                in Some \<lparr>workMinutes = wMinutes,
                         workHours = wHours,
                         overtimeMinutes = oMinutes,
                         overtimeHours = oHours,
                         lateMinutes = late,
                         isLate = (0 < late),
                         earlyLeaveMinutes = early,
                         isEarlyLeave = (0 < early),
                         isHolidayWork = isHolidayAt tza workDate\<rparr>)))"

section \<open>Work time with breaks (timecard-history.js, calculateWorkTime)\<close>

text \<open>
  The two nested \<open>for\<close> loops that pair a \<open>break_start\<close> with a \<open>break_end\<close>. The inner
  loop runs \<open>j\<close> from \<open>i + 1\<close> and stops at the first \<open>break_end\<close>; the outer loop
  appends the pair it finds, if any, to \<open>breakPairs\<close>. A pair is \<open>(start, end)\<close>.
\<close>

function findBreakEnd :: "attendance list \<Rightarrow> nat \<Rightarrow> attendance option" where
  "findBreakEnd records j =
     (if j < length records
      then if type (records ! j) = break_end then Some (records ! j)
           else findBreakEnd records (Suc j)
      else None)"
  by pat_completeness auto
termination
  by (relation "measure (\<lambda>(records, j). length records - j)") auto

function pairBreaks :: "attendance list \<Rightarrow> nat \<Rightarrow> (int \<times> int) list \<Rightarrow> (int \<times> int) list" where
  "pairBreaks records i breakPairs =
     (if i < length records
      then if type (records ! i) = break_start
           then (case findBreakEnd records (Suc i) of
                   Some e \<Rightarrow>
                     pairBreaks records (Suc i)
                       (breakPairs @ [(timestamp (records ! i), timestamp e)])
                 | None \<Rightarrow> pairBreaks records (Suc i) breakPairs)
           else pairBreaks records (Suc i) breakPairs
      else breakPairs)"
  by pat_completeness auto
termination
  by (relation "measure (\<lambda>(records, i, breakPairs). length records - i)") auto

text \<open>
  \<open>calculateWorkTime\<close> of monthly.js has the same two loops, and adds the length of each
  pair to \<open>breakMs\<close> at once instead of keeping the pairs.
\<close>

function sumBreaks :: "attendance list \<Rightarrow> nat \<Rightarrow> int \<Rightarrow> int" where
  "sumBreaks dayRecords i breakMs =
     (if i < length dayRecords
      then if type (dayRecords ! i) = break_start
           then (case findBreakEnd dayRecords (Suc i) of
                   Some e \<Rightarrow>
                     sumBreaks dayRecords (Suc i)
                       (breakMs + (timestamp e - timestamp (dayRecords ! i)))
                 | None \<Rightarrow> sumBreaks dayRecords (Suc i) breakMs)
           else sumBreaks dayRecords (Suc i) breakMs
      else breakMs)"
  by pat_completeness auto
termination
  by (relation "measure (\<lambda>(dayRecords, i, breakMs). length dayRecords - i)") auto

declare findBreakEnd.simps [simp del] pairBreaks.simps [simp del] sumBreaks.simps [simp del]

definition breakMsOf :: "(int \<times> int) list \<Rightarrow> int" where
  "breakMsOf breakPairs = foldl (\<lambda>breakMs pair. breakMs + (snd pair - fst pair)) 0 breakPairs"

record workTime =
  hours :: int
  minutes :: int
  isFinished :: bool
  isOnBreak :: bool

text \<open>
  Without a \<open>clock_out\<close> the function reads the clock (\<open>new Date()\<close>); the instant it reads is
  the argument \<open>now\<close>.
\<close>

definition calculateWorkTime :: "int \<Rightarrow> attendance list \<Rightarrow> workTime option" where
  "calculateWorkTime now records =
     (case find (\<lambda>r. type r = clock_in) records of
        None \<Rightarrow> None
      | Some clockIn \<Rightarrow>
          (let clockOut = find (\<lambda>r. type r = clock_out) records;
               startT = timestamp clockIn;
               endT = (case clockOut of Some c \<Rightarrow> timestamp c | None \<Rightarrow> now);
               totalMs = endT - startT;
               breakPairs = pairBreaks records 0 [];
               breakMs = breakMsOf breakPairs;
               workMs = totalMs - breakMs;
               totalMinutes = workMs div (1000 * 60)
           in Some \<lparr>hours = totalMinutes div 60,
                    minutes = jsRem totalMinutes 60,
                    isFinished = (clockOut \<noteq> None),
                    isOnBreak = (0 < length records \<and>
                                 type (records ! (length records - 1)) = break_start)\<rparr>))"

section \<open>The totals of a period (monthly.js, calculateMonthlySummary)\<close>

text \<open>
  For one employee, the records of the period are grouped by the local calendar day of
  their time stamp. The key is the text \<open>year/month/day\<close> that
  \<open>toLocaleDateString('ja-JP')\<close> prints, modelled by its three numbers; the days keep the
  order in which they first occur, as the keys of the object \<open>dayRecordsMap\<close> do.
\<close>

type_synonym dateKey = "int \<times> int \<times> int"

definition toLocaleDateString :: "int \<Rightarrow> dateKey" where
  "toLocaleDateString t = (YearFromTime t, MonthFromTime t + 1, DateFromTime t)"

fun pushDayRecord :: "dateKey \<Rightarrow> attendance \<Rightarrow> (dateKey \<times> attendance list) list
    \<Rightarrow> (dateKey \<times> attendance list) list" where
  "pushDayRecord k r [] = [(k, [r])]"
| "pushDayRecord k r ((k', rs) # m) =
     (if k' = k then (k', rs @ [r]) # m else (k', rs) # pushDayRecord k r m)"

definition dayRecordsMap :: "attendance list \<Rightarrow> (dateKey \<times> attendance list) list" where
  "dayRecordsMap records =
     foldl (\<lambda>m r. pushDayRecord (toLocaleDateString (timestamp r)) r m) [] records"

record totals =
  workingDays :: nat
  totalWorkMinutes :: int
  totalOvertimeMinutes :: int
  latenessCount :: nat
  totalLatenessMinutes :: int
  earlyLeaveCount :: nat
  totalEarlyLeaveMinutes :: int
  holidayWorkDays :: nat
  holidayWorkMinutes :: int
  paidLeaveDays :: nat
  absenceDays :: nat
  usedPCs :: "string list"

definition noTotals :: totals where
  "noTotals =
     \<lparr>workingDays = 0, totalWorkMinutes = 0, totalOvertimeMinutes = 0, latenessCount = 0,
      totalLatenessMinutes = 0, earlyLeaveCount = 0, totalEarlyLeaveMinutes = 0,
      holidayWorkDays = 0, holidayWorkMinutes = 0, paidLeaveDays = 0, absenceDays = 0,
      usedPCs = []\<rparr>"

text \<open>\<open>usedPCs\<close> is a \<open>Set\<close>: a value is added once, in the order of first insertion.\<close>

definition addPC :: "string list \<Rightarrow> attendance \<Rightarrow> string list" where
  "addPC pcs r =
     (if pcIdentifier r = [] \<or> pcIdentifier r \<in> set pcs then pcs else pcs @ [pcIdentifier r])"

definition addDayData :: "dayWorkData \<Rightarrow> totals \<Rightarrow> totals" where
  "addDayData dayData acc =
     (let acc = acc\<lparr>workingDays := workingDays acc + 1,
                     totalWorkMinutes := totalWorkMinutes acc + workMinutes dayData,
                     totalOvertimeMinutes := totalOvertimeMinutes acc + overtimeMinutes dayData\<rparr>;
          acc = (if isHolidayWork dayData
                 then acc\<lparr>holidayWorkDays := holidayWorkDays acc + 1,
                          holidayWorkMinutes := holidayWorkMinutes acc + workMinutes dayData\<rparr>
                 else acc);
          acc = (if isLate dayData
                 then acc\<lparr>latenessCount := latenessCount acc + 1,
                          totalLatenessMinutes := totalLatenessMinutes acc + lateMinutes dayData\<rparr>
                 else acc)
      in if isEarlyLeave dayData
         then acc\<lparr>earlyLeaveCount := earlyLeaveCount acc + 1,
                  totalEarlyLeaveMinutes :=
                    totalEarlyLeaveMinutes acc + earlyLeaveMinutes dayData\<rparr>
         else acc)"

text \<open>
  The body of the loop over the days. \<open>dayRecords.sort(...)\<close> orders the array of the day
  in place, by time stamp and stably; the body returns the array as it leaves it,
  together with the totals. A \<open>continue\<close> leaves the rest of the body out.
\<close>

definition summarizeDay ::
    "settings \<Rightarrow> dateKey \<times> attendance list \<Rightarrow> totals \<Rightarrow> attendance list \<times> totals" where
  "summarizeDay employeeConfig entry acc =
     (let (dateKey, dayRecords) = entry;
          (year, month, day) = dateKey;
          workDate = newDate year (month - 1) day
      in if list_ex (\<lambda>r. type r = paid_leave) dayRecords
         then (dayRecords, acc\<lparr>paidLeaveDays := paidLeaveDays acc + 1\<rparr>)
         else if list_ex (\<lambda>r. type r = absence) dayRecords
         then (dayRecords, acc\<lparr>absenceDays := absenceDays acc + 1\<rparr>)
         else (let dayRecords = sort_key timestamp dayRecords;
                   dayData = calculateDayWorkData dayRecords (Some employeeConfig) (Some workDate);
                   acc = (case dayData of None \<Rightarrow> acc | Some d \<Rightarrow> addDayData d acc)
               in (dayRecords, acc\<lparr>usedPCs := foldl addPC (usedPCs acc) dayRecords\<rparr>)))"

text \<open>The loop: the arrays of the days as the loop leaves them, and the totals.\<close>

fun summarizeDays ::
    "settings \<Rightarrow> (dateKey \<times> attendance list) list \<Rightarrow> totals
      \<Rightarrow> (dateKey \<times> attendance list) list \<times> totals" where
  "summarizeDays employeeConfig [] acc = ([], acc)"
| "summarizeDays employeeConfig (entry # entries) acc =
     (let (dayRecords, acc) = summarizeDay employeeConfig entry acc;
          (rest, acc) = summarizeDays employeeConfig entries acc
      in ((fst entry, dayRecords) # rest, acc))"

definition employeeTotals :: "settings \<Rightarrow> attendance list \<Rightarrow> totals" where
  "employeeTotals employeeConfig records =
     snd (summarizeDays employeeConfig (dayRecordsMap records) noTotals)"

section \<open>Reference definitions for break pairing\<close>

text \<open>
  First match forward, by recursion on the list: a \<open>break_start\<close> is closed by the first
  \<open>break_end\<close> in the rest of the list, and dropped when there is none.
\<close>

fun closedBreaks :: "attendance list \<Rightarrow> (int \<times> int) list" where
  "closedBreaks [] = []"
| "closedBreaks (r # rs) =
     (if type r = break_start
      then (case find (\<lambda>e. type e = break_end) rs of
              Some e \<Rightarrow> (timestamp r, timestamp e) # closedBreaks rs
            | None \<Rightarrow> closedBreaks rs)
      else closedBreaks rs)"

text \<open>
  Stack discipline, as the specification words it: a \<open>break_start\<close> is pushed, a
  \<open>break_end\<close> closes the most recently opened break that is still open, and only that
  one. \<open>opened\<close> is the stack of the open starts.
\<close>

fun stackPairs :: "int list \<Rightarrow> attendance list \<Rightarrow> (int \<times> int) list" where
  "stackPairs opened [] = []"
| "stackPairs opened (r # rs) =
     (if type r = break_start then stackPairs (timestamp r # opened) rs
      else if type r = break_end
      then (case opened of
              [] \<Rightarrow> stackPairs [] rs
            | s # opened' \<Rightarrow> (s, timestamp r) # stackPairs opened' rs)
      else stackPairs opened rs)"

text \<open>
  No break is started while another one is open: \<open>onBreak\<close> tells whether a
  \<open>break_start\<close> is waiting for its \<open>break_end\<close>.
\<close>

fun breaksAlternate :: "bool \<Rightarrow> attendance list \<Rightarrow> bool" where
  "breaksAlternate onBreak [] = True"
| "breaksAlternate onBreak (r # rs) =
     (if type r = break_start then \<not> onBreak \<and> breaksAlternate True rs
      else if type r = break_end then breaksAlternate False rs
      else breaksAlternate onBreak rs)"

section \<open>Example inputs\<close>

definition localTime :: "int \<Rightarrow> int \<Rightarrow> int \<Rightarrow> int \<Rightarrow> int \<Rightarrow> int" where
  "localTime y m d h mi = MakeDate (MakeDay y (m - 1) d) (MakeTime h mi 0 0)"

definition endOfDay :: "int \<Rightarrow> int \<Rightarrow> int \<Rightarrow> int" where
  "endOfDay y m d = MakeDate (MakeDay y (m - 1) d) (MakeTime 23 59 59 999)"

definition punch :: "recordType \<Rightarrow> int \<Rightarrow> attendance" where
  "punch k t =
     \<lparr>userId = ''u1'', userName = ''Sato'', type = k, timestamp = t, pcIdentifier = ''PC-1''\<rparr>"

text \<open>The schedule 09:00 to 18:00 with eight standard hours.\<close>

definition schedule_9_18 :: settings where
  "schedule_9_18 =
     \<lparr>startTime = ''09:00'', endTime = ''18:00'', breakTime = 60, standardWorkTime = 8\<rparr>"

text \<open>Monday 2025-01-06: in at 09:00, out for lunch from 12:00 to 13:00, out at 18:00.\<close>

definition dayWithBreak :: "attendance list" where
  "dayWithBreak =
     [punch clock_in (localTime 2025 1 6 9 0), punch break_start (localTime 2025 1 6 12 0),
      punch break_end (localTime 2025 1 6 13 0), punch clock_out (localTime 2025 1 6 18 0)]"

text \<open>In at 09:00 and out at 17:02: 482 minutes.\<close>

definition dayOf482Minutes :: "attendance list" where
  "dayOf482Minutes =
     [punch clock_in (localTime 2025 1 6 9 0), punch clock_out (localTime 2025 1 6 17 2)]"

text \<open>Two breaks started at 12:00 and 12:30, one return at 13:00.\<close>

definition twoStartsOneEnd :: "attendance list" where
  "twoStartsOneEnd =
     [punch break_start (localTime 2025 1 6 12 0), punch break_start (localTime 2025 1 6 12 30),
      punch break_end (localTime 2025 1 6 13 0)]"

text \<open>Out for a break at 12:00 and never back: the day ends with the \<open>clock_out\<close>.\<close>

definition dayLeftOnBreak :: "attendance list" where
  "dayLeftOnBreak =
     [punch clock_in (localTime 2025 1 6 9 0), punch break_start (localTime 2025 1 6 12 0),
      punch clock_out (localTime 2025 1 6 18 0)]"

text \<open>The same, still on the break: the \<open>break_start\<close> is the last record.\<close>

definition dayOnBreak :: "attendance list" where
  "dayOnBreak =
     [punch clock_in (localTime 2025 1 6 9 0), punch break_start (localTime 2025 1 6 12 0)]"

text \<open>A day delivered out of order: the \<open>clock_out\<close> of 18:00 before the \<open>clock_in\<close> of 09:00.\<close>

definition dayOutOfOrder :: "attendance list" where
  "dayOutOfOrder =
     [punch clock_out (localTime 2025 1 6 18 0), punch clock_in (localTime 2025 1 6 9 0)]"

text \<open>A day with a paid leave, an absence and a full pair of clock records.\<close>

definition dayOfLeaveAndAbsence :: "attendance list" where
  "dayOfLeaveAndAbsence =
     [punch paid_leave (localTime 2025 1 6 0 0), punch absence (localTime 2025 1 6 0 0),
      punch clock_in (localTime 2025 1 6 9 0), punch clock_out (localTime 2025 1 6 18 0)]"

text \<open>A day with an absence and a full pair of clock records.\<close>

definition dayOfAbsence :: "attendance list" where
  "dayOfAbsence =
     [punch absence (localTime 2025 1 6 0 0),
      punch clock_in (localTime 2025 1 6 9 0), punch clock_out (localTime 2025 1 6 18 0)]"

text \<open>A day with a \<open>clock_in\<close> only.\<close>

definition dayWithoutClockOut :: "attendance list" where
  "dayWithoutClockOut = [punch clock_in (localTime 2025 1 6 9 0)]"

text \<open>Japan is nine hours ahead of UTC.\<close>

definition japanTime :: int where
  "japanTime = 9 * msPerHour"

text \<open>
  Two instants: in at 2025-01-06 00:20 UTC, which is 09:20 in Japan, and out at 09:00
  UTC, which is 18:00 in Japan.
\<close>

definition dayAcrossZones :: "attendance list" where
  "dayAcrossZones =
     [punch clock_in (localTime 2025 1 6 0 20), punch clock_out (localTime 2025 1 6 9 0)]"

section \<open>Evaluation of the examples\<close>

lemmas time_defs = msPerDay_def msPerHour_def msPerMinute_def msPerSecond_def Day_def
  TimeWithinDay_def MakeTime_def MakeDate_def MakeDay_def DayFromYear_def DaysInYear_def
  daysBeforeMonth_def TimeClip_def

lemmas calendar_defs = YearFromTime_def YearFromDay_def yearNotAfter.simps yearLast.simps
  InLeapYear_def DayWithinYear_def MonthFromTime_def DateFromTime_def WeekDay_def

lemmas double_defs = fdiv_def fsub_def fmul_def roundToDouble_def binaryExponent_def
  roundTiesToEven_def floorlog2.simps Let_def

lemmas day_defs = calculateDayWorkData_def punch_def textSetting_def numberSetting_def
  setHours_def isHoliday_def getDay_def WeekDay_def schedule_9_18_def

text \<open>The rounding agrees with the doubles of one tenth and of one third.\<close>

lemma fdiv_tenth: "fdiv 1 10 = 3602879701896397 / 2 ^ 55"
  by (simp add: double_defs)

lemma fdiv_third: "fdiv 1 3 = 6004799503160661 / 2 ^ 54"
  by (simp add: double_defs)

lemma localTime_2025_1_6: "localTime 2025 1 6 h mi = 1736121600000 + h * 3600000 + mi * 60000"
  by (simp add: localTime_def time_defs)

lemma splitHourMinute_0900: "splitHourMinute ''09:00'' = (Some 9, Some 0)"
  by (simp add: splitHourMinute_def Number_def digitValue_def)

lemma splitHourMinute_1800: "splitHourMinute ''18:00'' = (Some 18, Some 0)"
  by (simp add: splitHourMinute_def Number_def digitValue_def)

lemma nine_hours: "fdiv 540 60 = 9" "fsub 9 8 = 1" "fmul 1 60 = 60"
  by (simp_all add: double_defs)

text \<open>
  482 minutes in hours, the overtime over eight hours, and its minutes. The denominator
  is \<open>2^49\<close>.
\<close>

lemma hours_of_482_minutes: "fdiv 482 60 = 4522364625817873 / 562949953421312"
  by (simp add: double_defs)

lemma overtime_hours_of_482_minutes:
  "fsub (4522364625817873 / 562949953421312) 8 = 18764998447377 / 562949953421312"
  by (simp add: double_defs)

lemma overtime_minutes_of_482_minutes:
  "\<lfloor>fmul (18764998447377 / 562949953421312) 60\<rfloor> = 1"
  by (simp add: double_defs)

lemma dayWithBreak_data:
  "calculateDayWorkData dayWithBreak (Some schedule_9_18) None =
     Some \<lparr>workMinutes = 540, workHours = 9, overtimeMinutes = 60, overtimeHours = 1,
           lateMinutes = 0, isLate = False, earlyLeaveMinutes = 0, isEarlyLeave = False,
           isHolidayWork = False\<rparr>"
  by (simp add: dayWithBreak_def day_defs localTime_2025_1_6 splitHourMinute_0900
      splitHourMinute_1800 time_defs nine_hours)

lemma dayWithBreak_workTime:
  "calculateWorkTime now dayWithBreak =
     Some \<lparr>hours = 8, minutes = 0, isFinished = True, isOnBreak = False\<rparr>"
  by (simp add: calculateWorkTime_def dayWithBreak_def punch_def pairBreaks.simps
      findBreakEnd.simps localTime_2025_1_6 breakMsOf_def jsRem_def)

lemma dayOf482Minutes_data:
  "calculateDayWorkData dayOf482Minutes (Some schedule_9_18) None =
     Some \<lparr>workMinutes = 482, workHours = 4522364625817873 / 562949953421312,
           overtimeMinutes = 1, overtimeHours = 18764998447377 / 562949953421312,
           lateMinutes = 0, isLate = False, earlyLeaveMinutes = 58, isEarlyLeave = True,
           isHolidayWork = False\<rparr>"
  by (simp add: dayOf482Minutes_def day_defs localTime_2025_1_6 splitHourMinute_0900
      splitHourMinute_1800 time_defs hours_of_482_minutes overtime_hours_of_482_minutes
      overtime_minutes_of_482_minutes)

text \<open>
  Two more examples of the specification: a \<open>clock_in\<close> at 09:20 against a start at
  09:00 is 20 minutes late, and work on Saturday 2025-01-04 is holiday work.
\<close>

lemma late_by_20_minutes:
  "map_option lateMinutes
     (calculateDayWorkData
        [punch clock_in (localTime 2025 1 6 9 20), punch clock_out (localTime 2025 1 6 18 0)]
        (Some schedule_9_18) None) = Some 20 \<and>
   map_option isLate
     (calculateDayWorkData
        [punch clock_in (localTime 2025 1 6 9 20), punch clock_out (localTime 2025 1 6 18 0)]
        (Some schedule_9_18) None) = Some True"
  by (simp add: day_defs localTime_2025_1_6 splitHourMinute_0900 splitHourMinute_1800
      time_defs Let_def)

lemma localTime_2025_1_4: "localTime 2025 1 4 h mi = 1735948800000 + h * 3600000 + mi * 60000"
  by (simp add: localTime_def time_defs)

lemma saturday_is_holiday_work:
  "map_option isHolidayWork
     (calculateDayWorkData
        [punch clock_in (localTime 2025 1 4 9 0), punch clock_out (localTime 2025 1 4 10 0)]
        (Some schedule_9_18) None) = Some True"
  by (simp add: day_defs localTime_2025_1_4 splitHourMinute_0900 splitHourMinute_1800
      time_defs Let_def)

text \<open>\<open>new Date(2025, 3, 31)\<close> is the first of May 2025.\<close>

lemma first_of_may: "newDate 2025 3 31 = Some 1746057600000"
  by (simp add: newDate_def time_defs)

lemma first_of_may_year: "YearFromTime 1746057600000 = 2025"
  by (simp add: YearFromTime_def YearFromDay_def Day_def msPerDay_def yearNotAfter.simps
      yearLast.simps DayFromYear_def)

lemma first_of_may_month: "MonthFromTime 1746057600000 = 4"
  by (simp add: MonthFromTime_def DayWithinYear_def InLeapYear_def first_of_may_year
      Day_def msPerDay_def DayFromYear_def DaysInYear_def)

lemma first_of_may_date: "DateFromTime 1746057600000 = 1"
  by (simp add: DateFromTime_def first_of_may_month DayWithinYear_def InLeapYear_def
      first_of_may_year Day_def msPerDay_def DayFromYear_def DaysInYear_def)

lemma period_2025_4_30:
  "calculatePeriod 2025 4 30 = (Some (localTime 2025 4 1 0 0), Some (endOfDay 2025 4 30))"
  by (simp add: calculatePeriod_def first_of_may getMonth_def setMonth_def first_of_may_year
      first_of_may_month first_of_may_date setHours_def)
     (simp add: newDate_def localTime_def endOfDay_def time_defs)

section \<open>Rounding to a double\<close>

text \<open>
  The rounding is off by at most the fraction \<open>2^-53\<close> of the value, and it leaves an
  integer below \<open>2^53\<close> as it is. So \<open>Math.floor(n / b)\<close> on such integers is their
  integer quotient, which is how the minutes of a difference of two time stamps are
  modelled.
\<close>

lemma floorlog2_bounds: "0 < n \<Longrightarrow> 2 ^ floorlog2 n \<le> n \<and> n < 2 ^ (floorlog2 n + 1)"
proof (induction n rule: floorlog2.induct)
  case (1 n)
  show ?case
  proof (cases "n < 2")
    case True
    with 1(2) show ?thesis by (subst (1 2) floorlog2.simps) simp
  next
    case False
    then have "0 < n div 2" by simp
    with 1(1) False have ih: "2 ^ floorlog2 (n div 2) \<le> n div 2"
      "n div 2 < 2 ^ (floorlog2 (n div 2) + 1)" by simp_all
    have f: "floorlog2 n = Suc (floorlog2 (n div 2))"
      using False by (subst floorlog2.simps) simp
    show ?thesis unfolding f using ih by simp linarith
  qed
qed

lemma roundTiesToEven_error: "\<bar>of_int (roundTiesToEven n) - n\<bar> \<le> 1 / 2"
  unfolding roundTiesToEven_def Let_def by (auto simp: abs_if) linarith+

lemma roundTiesToEven_of_int: "roundTiesToEven (of_int z) = z"
  by (simp add: roundTiesToEven_def)


lemma binaryExponent_ge_1:
  assumes "1 \<le> x"
  shows "0 \<le> binaryExponent x" and "2 ^ nat (binaryExponent x) \<le> x"
proof -
  let ?n = "nat \<lfloor>x\<rfloor>"
  have n: "0 < ?n" using assms by simp
  have e: "binaryExponent x = int (floorlog2 ?n)" using assms by (simp add: binaryExponent_def)
  show "0 \<le> binaryExponent x" by (simp add: e)
  have "2 ^ floorlog2 ?n \<le> ?n" using floorlog2_bounds [OF n] by simp
  then have "(2::real) ^ floorlog2 ?n \<le> real ?n"
    by (metis of_nat_le_iff of_nat_numeral of_nat_power)
  also have "\<dots> \<le> x" using assms by simp
  finally show "2 ^ nat (binaryExponent x) \<le> x" by (simp add: e)
qed

lemma binaryExponent_lt_1:
  assumes "0 < x" "x < 1"
  shows "binaryExponent x < 0" and "1 \<le> x * 2 ^ nat (- binaryExponent x)"
proof -
  let ?c = "nat (\<lceil>1 / x\<rceil> - 1)"
  have y: "1 < 1 / x" using assms by simp
  then have "2 \<le> \<lceil>1 / x\<rceil>" by linarith
  then have c: "0 < ?c" by simp
  have e: "binaryExponent x = - int (floorlog2 ?c) - 1"
    using assms by (simp add: binaryExponent_def)
  show "binaryExponent x < 0" by (simp add: e)
  have "?c < 2 ^ (floorlog2 ?c + 1)" using floorlog2_bounds [OF c] by simp
  then have "?c + 1 \<le> 2 ^ (floorlog2 ?c + 1)" by simp
  then have "real (?c + 1) \<le> 2 ^ (floorlog2 ?c + 1)"
    by (metis of_nat_le_iff of_nat_numeral of_nat_power)
  moreover have "1 / x \<le> real (?c + 1)" using c by simp linarith
  ultimately have "1 / x \<le> 2 ^ (floorlog2 ?c + 1)" by linarith
  then have "1 \<le> x * 2 ^ (floorlog2 ?c + 1)"
    using assms(1) by (simp add: field_simps)
  moreover have "nat (- binaryExponent x) = floorlog2 ?c + 1" by (simp add: e)
  ultimately show "1 \<le> x * 2 ^ nat (- binaryExponent x)" by simp
qed


lemma roundToDouble_minus: "roundToDouble (- x) = - roundToDouble x"
  by (simp add: roundToDouble_def Let_def)

lemma abs_scale_up:
  fixes z a u :: real
  assumes "0 < u"
  shows "\<bar>z * u - a\<bar> = \<bar>z - a / u\<bar> * u"
proof -
  have "z * u - a = (z - a / u) * u" using assms by (simp add: field_simps)
  then show ?thesis using assms by (simp add: abs_mult)
qed

lemma abs_scale_down:
  fixes z a u :: real
  assumes "0 < u"
  shows "\<bar>z / u - a\<bar> = \<bar>z - a * u\<bar> / u"
proof -
  have "z / u - a = (z - a * u) / u" using assms by (simp add: field_simps)
  then show ?thesis using assms by simp
qed

lemma roundToDouble_pos_error:
  assumes "0 < a"
  shows "\<bar>roundToDouble a - a\<bar> \<le> a / 2 ^ 53"
proof -
  let ?e = "binaryExponent a"
  show ?thesis
  proof (cases "52 \<le> ?e")
    case True
    let ?k = "nat (?e - 52)"
    have a1: "1 \<le> a"
    proof (rule ccontr)
      assume "\<not> 1 \<le> a"
      then have "?e < 0" using assms by (intro binaryExponent_lt_1) simp_all
      then show False using True by simp
    qed
    have "nat ?e = ?k + 52" using True by simp
    then have "(2::real) ^ ?k * 2 ^ 52 \<le> a"
      using binaryExponent_ge_1(2) [OF a1] by (simp add: power_add)
    then have u: "(2::real) ^ ?k / 2 \<le> a / 2 ^ 53" by simp
    have r: "roundToDouble a = of_int (roundTiesToEven (a / 2 ^ ?k)) * 2 ^ ?k"
      using assms True by (simp add: roundToDouble_def Let_def)
    have "\<bar>roundToDouble a - a\<bar> =
        \<bar>of_int (roundTiesToEven (a / 2 ^ ?k)) - a / 2 ^ ?k\<bar> * 2 ^ ?k"
      unfolding r by (rule abs_scale_up) simp
    also have "\<dots> \<le> 1 / 2 * 2 ^ ?k"
      by (intro mult_right_mono roundTiesToEven_error) simp
    finally show ?thesis using u by simp
  next
    case False
    let ?k = "nat (52 - ?e)"
    have big: "(2::real) ^ 52 \<le> a * 2 ^ ?k"
    proof (cases "1 \<le> a")
      case True
      have "nat ?e + ?k = 52" using binaryExponent_ge_1(1) [OF True] False by simp
      then have "(2::real) ^ 52 = 2 ^ nat ?e * 2 ^ ?k" by (simp add: power_add [symmetric])
      also have "\<dots> \<le> a * 2 ^ ?k"
        by (intro mult_right_mono binaryExponent_ge_1(2) [OF True]) simp
      finally show ?thesis .
    next
      case F: False
      then have l: "?e < 0" "1 \<le> a * 2 ^ nat (- ?e)"
        using assms by (intro binaryExponent_lt_1; simp)+
      have "?k = nat (- ?e) + 52" using l(1) by simp
      then have "a * 2 ^ ?k = a * 2 ^ nat (- ?e) * 2 ^ 52" by (simp add: power_add)
      also have "\<dots> \<ge> 1 * 2 ^ 52" by (intro mult_right_mono l(2)) simp
      finally show ?thesis by simp
    qed
    then have u: "1 / 2 / (2::real) ^ ?k \<le> a / 2 ^ 53" by (simp add: field_simps)
    have r: "roundToDouble a = of_int (roundTiesToEven (a * 2 ^ ?k)) / 2 ^ ?k"
      using assms False by (simp add: roundToDouble_def Let_def)
    have "\<bar>roundToDouble a - a\<bar> =
        \<bar>of_int (roundTiesToEven (a * 2 ^ ?k)) - a * 2 ^ ?k\<bar> / 2 ^ ?k"
      unfolding r by (rule abs_scale_down) simp
    also have "\<dots> \<le> 1 / 2 / 2 ^ ?k"
      by (intro divide_right_mono roundTiesToEven_error) simp
    finally show ?thesis using u by simp
  qed
qed

lemma roundToDouble_error: "\<bar>roundToDouble x - x\<bar> \<le> \<bar>x\<bar> / 2 ^ 53"
proof (cases "0 < x")
  case True
  then show ?thesis using roundToDouble_pos_error [of x] by simp
next
  case False
  show ?thesis
  proof (cases "x = 0")
    case True
    then show ?thesis by (simp add: roundToDouble_def)
  next
    case F: False
    then have "0 < - x" using False by simp
    then show ?thesis
      using roundToDouble_pos_error [of "- x"] by (simp add: roundToDouble_minus)
  qed
qed


lemma roundToDouble_of_pos_int:
  assumes "0 < z" "z < 2 ^ 53"
  shows "roundToDouble (of_int z) = of_int z"
proof -
  let ?a = "real_of_int z"
  let ?e = "binaryExponent ?a"
  have a1: "1 \<le> ?a" using assms(1) by simp
  have e0: "0 \<le> ?e" by (rule binaryExponent_ge_1(1) [OF a1])
  have "(2::real) ^ nat ?e \<le> ?a" by (rule binaryExponent_ge_1(2) [OF a1])
  also have "?a < 2 ^ 53" using assms(2) by (metis of_int_less_iff of_int_numeral of_int_power)
  finally have "(2::real) ^ nat ?e < 2 ^ 53" .
  then have "nat ?e < 53" using power_less_imp_less_exp [of "2::real" "nat ?e" 53] by simp
  then have e52: "?e \<le> 52" by simp
  show ?thesis
  proof (cases "52 \<le> ?e")
    case True
    then have "nat (?e - 52) = 0" using e52 by simp
    then show ?thesis
      using assms(1) True by (simp add: roundToDouble_def Let_def roundTiesToEven_of_int)
  next
    case False
    let ?k = "nat (52 - ?e)"
    have "?a * 2 ^ ?k = of_int (z * 2 ^ ?k)" by simp
    then have "roundTiesToEven (?a * 2 ^ ?k) = z * 2 ^ ?k"
      by (simp only: roundTiesToEven_of_int)
    then show ?thesis
      using assms(1) False by (simp add: roundToDouble_def Let_def)
  qed
qed

lemma roundToDouble_of_int:
  assumes "\<bar>z\<bar> < 2 ^ 53"
  shows "roundToDouble (of_int z) = of_int z"
proof -
  consider "z = 0" | "0 < z" | "0 < - z" by linarith
  then show ?thesis
  proof cases
    case 1
    then show ?thesis by (simp add: roundToDouble_def)
  next
    case 2
    then show ?thesis using assms by (intro roundToDouble_of_pos_int) simp_all
  next
    case 3
    then have "roundToDouble (of_int (- z)) = of_int (- z)"
      using assms by (intro roundToDouble_of_pos_int) simp_all
    then show ?thesis by (simp add: roundToDouble_minus)
  qed
qed

text \<open>\<open>Math.floor(n / b)\<close> on integers below \<open>2^53\<close> is the integer quotient.\<close>

lemma floor_fdiv:
  assumes b: "0 < b" and n: "\<bar>n\<bar> < 2 ^ 53"
  shows "\<lfloor>fdiv (of_int n) (of_int b)\<rfloor> = n div b"
proof -
  define q where "q = n div b"
  define r where "r = n mod b"
  define x where "x = real_of_int n / real_of_int b"
  have nqr: "n = q * b + r" by (simp add: q_def r_def)
  have r: "0 \<le> r" "r < b" using b by (simp_all add: r_def)
  have rb: "0 < real_of_int b" using b by simp
  have x: "x = of_int q + of_int r / of_int b"
    unfolding x_def nqr using b by (simp add: field_simps)
  show ?thesis
  proof (cases "r = 0")
    case True
    then have xq: "x = of_int q" using x by simp
    have "\<bar>q\<bar> * 1 \<le> \<bar>q\<bar> * \<bar>b\<bar>" using b by (intro mult_left_mono) simp_all
    then have "\<bar>q\<bar> \<le> \<bar>n\<bar>" using True nqr by (simp add: abs_mult)
    then have "\<bar>q\<bar> < 2 ^ 53" using n by simp
    then have "roundToDouble (of_int q) = of_int q" by (rule roundToDouble_of_int)
    then show ?thesis by (simp add: fdiv_def x_def [symmetric] xq q_def)
  next
    case False
    then have r1: "1 \<le> r" "r \<le> b - 1" using r by simp_all
    have lo: "of_int q + 1 / of_int b \<le> x"
      unfolding x using r1(1) rb by (simp add: divide_right_mono)
    have "real_of_int r \<le> real_of_int (b - 1)" using r1(2) by (simp only: of_int_le_iff)
    then have "real_of_int r / of_int b \<le> (of_int b - 1) / of_int b"
      using rb by (intro divide_right_mono) simp_all
    moreover have "(real_of_int b - 1) / of_int b = 1 - 1 / of_int b"
      using rb by (simp add: diff_divide_distrib)
    ultimately have hi: "x \<le> of_int q + 1 - 1 / of_int b"
      unfolding x by linarith
    have "\<bar>real_of_int n\<bar> < 2 ^ 53"
      using n by (metis of_int_abs of_int_less_iff of_int_numeral of_int_power)
    then have "\<bar>x\<bar> < 2 ^ 53 / of_int b"
      unfolding x_def using rb by (simp add: divide_strict_right_mono)
    then have "\<bar>x\<bar> / 2 ^ 53 < 1 / of_int b" by (simp add: field_simps)
    then have err: "\<bar>roundToDouble x - x\<bar> < 1 / of_int b"
      using roundToDouble_error [of x] by linarith
    have "of_int q \<le> roundToDouble x" "roundToDouble x < of_int q + 1"
      using err lo hi by linarith+
    then have "\<lfloor>roundToDouble x\<rfloor> = q" by (intro floor_unique) simp_all
    then show ?thesis by (simp add: fdiv_def x_def q_def)
  qed
qed

lemma roundToDouble_nonpos: "x \<le> 0 \<Longrightarrow> roundToDouble x \<le> 0"
proof -
  assume x: "x \<le> 0"
  have "\<bar>roundToDouble x - x\<bar> \<le> \<bar>x\<bar> / 2 ^ 53" by (rule roundToDouble_error)
  then have "roundToDouble x \<le> x + (- x) / 2 ^ 53" using x by (simp add: abs_le_iff)
  also have "\<dots> = x * (1 - 1 / 2 ^ 53)" by (simp add: algebra_simps)
  also have "\<dots> \<le> 0" using x by (intro mult_nonpos_nonneg) simp_all
  finally show ?thesis .
qed

text \<open>
  The overtime of \<open>w\<close> worked minutes over \<open>s\<close> standard hours, where \<open>60 * s\<close> is the
  whole number \<open>S\<close> of minutes: none up to \<open>S\<close> minutes, and beyond that the minutes
  above \<open>S\<close> or one minute less.
\<close>

lemma error_le:
  fixes e z m :: real
  assumes "e \<le> z / 9007199254740992" and "z \<le> m"
  shows "e \<le> m / 9007199254740992"
proof -
  have "z / 9007199254740992 \<le> m / 9007199254740992"
    using assms(2) by (intro divide_right_mono) simp_all
  then show ?thesis using assms(1) by simp
qed

lemma abs_times_60: "\<bar>y * 60\<bar> = \<bar>y\<bar> * (60::real)"
  by (simp add: abs_mult)

lemma overtime_within_one_minute:
  fixes w S :: int and s :: real
  assumes w: "\<bar>w\<bar> \<le> 2 ^ 31" and s: "0 \<le> s" "s \<le> 1000000"
    and S: "real_of_int S = 60 * s" and d: "roundToDouble s = s"
  defines "ot \<equiv> \<lfloor>fmul (max 0 (fsub (fdiv (of_int w) 60) s)) 60\<rfloor>"
  shows "(w \<le> S \<longrightarrow> ot = 0) \<and> (S < w \<longrightarrow> w - S - 1 \<le> ot \<and> ot \<le> w - S)"
proof -
  define x where "x = real_of_int w / 60"
  define h where "h = roundToDouble x"
  define g where "g = roundToDouble (h - s)"
  define c where "c = roundToDouble (max 0 g * 60)"
  have o: "ot = \<lfloor>c\<rfloor>"
    by (simp add: ot_def c_def g_def h_def x_def fdiv_def fsub_def fmul_def)
  have "\<bar>real_of_int w\<bar> \<le> 2 ^ 31"
    using w by (metis of_int_abs of_int_le_iff of_int_numeral of_int_power)
  then have xb: "\<bar>x\<bar> \<le> 40000000" by (simp add: x_def)
  have e1: "\<bar>h - x\<bar> \<le> \<bar>x\<bar> / 9007199254740992"
    unfolding h_def using roundToDouble_error [of x] by simp
  have e2: "\<bar>g - (h - s)\<bar> \<le> \<bar>h - s\<bar> / 9007199254740992"
    unfolding g_def using roundToDouble_error [of "h - s"] by simp
  have e3: "\<bar>c - max 0 g * 60\<bar> \<le> \<bar>max 0 g * 60\<bar> / 9007199254740992"
    unfolding c_def using roundToDouble_error [of "max 0 g * 60"] by simp
  have xS: "x - s = real_of_int (w - S) / 60" by (simp add: x_def S)
  show ?thesis
  proof (intro conjI impI)
    assume le: "w \<le> S"
    have "h \<le> s"
    proof (cases "w = S")
      case True
      then have "x = s" using S by (simp add: x_def)
      then show ?thesis using d by (simp add: h_def)
    next
      case False
      then have "w - S \<le> - 1" using le by simp
      then have "real_of_int (w - S) \<le> - 1" by (simp only: of_int_le_iff [symmetric] of_int_minus of_int_1)
      then have "x - s \<le> - 1 / 60" unfolding xS by simp
      then show ?thesis using e1 xb by linarith
    qed
    then have "g \<le> 0" unfolding g_def by (intro roundToDouble_nonpos) simp
    then have "max 0 g = 0" by simp
    then have "c = 0" by (simp add: c_def roundToDouble_def)
    then show "ot = 0" by (simp add: o)
  next
    assume lt: "S < w"
    then have "1 \<le> w - S" by simp
    then have p: "1 \<le> real_of_int (w - S)" by (simp only: of_int_le_iff [symmetric] of_int_1)
    have hx: "\<bar>h - x\<bar> \<le> 40000000 / 9007199254740992" by (rule error_le [OF e1 xb])
    then have "\<bar>h - s\<bar> \<le> 80000000" using xb s by linarith
    then have gh: "\<bar>g - (h - s)\<bar> \<le> 80000000 / 9007199254740992" by (rule error_le [OF e2])
    have gx: "\<bar>g - (x - s)\<bar> \<le> 120000000 / 9007199254740992" using hx gh by linarith
    have x60: "1 / 60 \<le> x - s" unfolding xS using p by simp
    then have "0 \<le> g" using gx by linarith
    then have m: "max 0 g = g" by simp
    have "\<bar>g\<bar> \<le> 120000000" using gx xb s by linarith
    then have "\<bar>g * 60\<bar> \<le> 7200000000" by (simp add: abs_mult)
    then have cg: "\<bar>c - g * 60\<bar> \<le> 7200000000 / 9007199254740992"
      by (rule error_le [OF e3 [unfolded m]])
    have "real_of_int (w - S) = (x - s) * 60" unfolding xS by simp
    then have "g * 60 - real_of_int (w - S) = (g - (x - s)) * 60"
      by (simp only: left_diff_distrib)
    then have "\<bar>g * 60 - real_of_int (w - S)\<bar> = \<bar>(g - (x - s)) * 60\<bar>"
      by (rule arg_cong)
    also have "\<dots> = \<bar>g - (x - s)\<bar> * 60" by (rule abs_times_60)
    finally have "\<bar>g * 60 - real_of_int (w - S)\<bar> = \<bar>g - (x - s)\<bar> * 60" .
    moreover have "\<bar>g - (x - s)\<bar> * 60 \<le> 120000000 / 9007199254740992 * 60"
      using gx by (intro mult_right_mono) simp_all
    ultimately have gw: "\<bar>g * 60 - real_of_int (w - S)\<bar> \<le> 1 / 4" by simp
    have "\<bar>c - g * 60\<bar> \<le> 1 / 4" using cg by simp
    then have "\<bar>c - real_of_int (w - S)\<bar> \<le> 1 / 2" using gw by linarith
    then have "c - real_of_int (w - S) \<le> 1 / 2" "- (c - real_of_int (w - S)) \<le> 1 / 2"
      by (simp_all only: abs_le_iff)
    then have "real_of_int (w - S - 1) \<le> c" "c < real_of_int (w - S + 1)"
      by simp_all
    then have "w - S - 1 \<le> \<lfloor>c\<rfloor>" "\<lfloor>c\<rfloor> < w - S + 1"
      by (simp_all only: le_floor_iff floor_less_iff)
    then show "w - S - 1 \<le> ot" and "ot \<le> w - S" by (simp_all add: o)
  qed
qed

section \<open>From a day number back to its date\<close>

text \<open>
  The year, the month and the day of the month that the getters read from a time value
  are those it was made from, when the day exists in its month.
\<close>

lemma DayFromYear_mono_nat: "DayFromYear y < DayFromYear (y + 1 + int n)"
proof (induction n)
  case 0
  show ?case using DayFromYear_Suc [of y] DaysInYear_pos [of y] by simp
next
  case (Suc n)
  show ?case
    using Suc DayFromYear_Suc [of "y + 1 + int n"] DaysInYear_pos [of "y + 1 + int n"]
    by (simp add: algebra_simps)
qed

lemma DayFromYear_strict_mono: "a < b \<Longrightarrow> DayFromYear a < DayFromYear b"
  using DayFromYear_mono_nat [of a "nat (b - a - 1)"] by simp

lemma DayFromYear_mono: "a \<le> b \<Longrightarrow> DayFromYear a \<le> DayFromYear b"
  using DayFromYear_strict_mono [of a b] by (cases "a = b") auto

lemma yearNotAfter_le: "DayFromYear (yearNotAfter y d) \<le> d"
proof (induction y d rule: yearNotAfter.induct)
  case (1 y d)
  then show ?case by (subst yearNotAfter.simps) simp
qed

lemma yearLast_bounds:
  "DayFromYear y \<le> d \<Longrightarrow>
     DayFromYear (yearLast y d) \<le> d \<and> d < DayFromYear (yearLast y d + 1)"
proof (induction y d rule: yearLast.induct)
  case (1 y d)
  then show ?case by (subst (1 2) yearLast.simps) simp
qed

lemma YearFromDay_bounds:
  "DayFromYear (YearFromDay d) \<le> d \<and> d < DayFromYear (YearFromDay d + 1)"
  unfolding YearFromDay_def by (rule yearLast_bounds) (rule yearNotAfter_le)

lemma YearFromDay_unique:
  assumes "DayFromYear y \<le> d" and "d < DayFromYear (y + 1)"
  shows "YearFromDay d = y"
proof (rule ccontr)
  assume n: "YearFromDay d \<noteq> y"
  let ?r = "YearFromDay d"
  have b: "DayFromYear ?r \<le> d" "d < DayFromYear (?r + 1)"
    using YearFromDay_bounds [of d] by simp_all
  show False
  proof (cases "?r < y")
    case True
    then have "DayFromYear (?r + 1) \<le> DayFromYear y" by (intro DayFromYear_mono) simp
    then show False using b assms by simp
  next
    case False
    then have "y + 1 \<le> ?r" using n by simp
    then have "DayFromYear (y + 1) \<le> DayFromYear ?r" by (rule DayFromYear_mono)
    then show False using b assms by simp
  qed
qed

lemma Day_MakeDate: "0 \<le> time \<Longrightarrow> time < msPerDay \<Longrightarrow> Day (MakeDate day time) = day"
  by (simp add: Day_def MakeDate_def msPerDay_def)

lemma TimeWithinDay_MakeDate:
  "0 \<le> time \<Longrightarrow> time < msPerDay \<Longrightarrow> TimeWithinDay (MakeDate day time) = time"
  by (simp add: TimeWithinDay_def MakeDate_def msPerDay_def)

lemma month_cases:
  "0 \<le> (m::int) \<Longrightarrow> m \<le> 11 \<Longrightarrow>
     m = 0 \<or> m = 1 \<or> m = 2 \<or> m = 3 \<or> m = 4 \<or> m = 5 \<or> m = 6 \<or> m = 7 \<or> m = 8 \<or> m = 9 \<or>
     m = 10 \<or> m = 11"
  by arith

lemma leap_cases: "DaysInYear y = 365 \<or> DaysInYear y = 366"
  by (simp add: DaysInYear_def)

lemma daysBeforeMonth_bounds:
  assumes "0 \<le> m" "m \<le> 11" "1 \<le> d" "d \<le> DaysInMonth y m"
  shows "0 \<le> daysBeforeMonth y m + d - 1 \<and> daysBeforeMonth y m + d - 1 < DaysInYear y"
  using month_cases [OF assms(1,2)] leap_cases [of y] assms(3,4)
  by (elim disjE) (simp_all add: DaysInMonth_def daysBeforeMonth_def)


lemma MakeDay_in_year:
  "0 \<le> m \<Longrightarrow> m \<le> 11 \<Longrightarrow> MakeDay y m d = DayFromYear y + daysBeforeMonth y m + d - 1"
  by (simp add: MakeDay_def)

lemma civil_of_MakeDay:
  assumes m: "0 \<le> m" "m \<le> 11" and d: "1 \<le> d" "d \<le> DaysInMonth y m"
    and t: "Day t = MakeDay y m d"
  shows "YearFromTime t = y \<and> MonthFromTime t = m \<and> DateFromTime t = d"
proof -
  have day: "Day t = DayFromYear y + (daysBeforeMonth y m + d - 1)"
    using t m by (simp add: MakeDay_in_year)
  have b: "0 \<le> daysBeforeMonth y m + d - 1" "daysBeforeMonth y m + d - 1 < DaysInYear y"
    using daysBeforeMonth_bounds [OF m d] by simp_all
  have yr: "YearFromTime t = y"
    unfolding YearFromTime_def
    by (rule YearFromDay_unique) (use day b DayFromYear_Suc [of y] in simp_all)
  have w: "DayWithinYear t = daysBeforeMonth y m + d - 1"
    by (simp add: DayWithinYear_def yr day)
  have l: "InLeapYear t = (if DaysInYear y = 366 then 1 else 0)"
    by (simp add: InLeapYear_def yr)
  have mo: "MonthFromTime t = m"
    unfolding MonthFromTime_def w l
    using month_cases [OF m] leap_cases [of y] d
    by (elim disjE) (simp_all add: DaysInMonth_def daysBeforeMonth_def)
  have "DateFromTime t = d"
    unfolding DateFromTime_def mo w l
    using month_cases [OF m] leap_cases [of y]
    by (elim disjE) (simp_all add: daysBeforeMonth_def)
  with yr mo show ?thesis by simp
qed


lemma DayFromYear_bound:
  assumes "99 \<le> y" "y \<le> 9999"
  shows "\<bar>DayFromYear y\<bar> \<le> 3000000"
proof -
  define a where "a = (y - 1969) div 4"
  define b where "b = (y - 1901) div 100"
  define c where "c = (y - 1601) div 400"
  have "a \<le> 8030 div 4" "(99 - 1969) div 4 \<le> a"
    unfolding a_def using assms by (intro zdiv_mono1; simp)+
  moreover have "(99 - 1901) div 100 \<le> b" "b \<le> (9999 - 1901) div 100"
    unfolding b_def using assms by (intro zdiv_mono1; simp)+
  moreover have "c \<le> 8398 div 400" "(99 - 1601) div 400 \<le> c"
    unfolding c_def using assms by (intro zdiv_mono1; simp)+
  moreover have "DayFromYear y = 365 * (y - 1970) + a - b + c"
    by (simp add: DayFromYear_def a_def b_def c_def)
  ultimately show ?thesis using assms by simp
qed

lemma daysBeforeMonth_bound: "0 \<le> daysBeforeMonth y m \<and> daysBeforeMonth y m \<le> 335"
  by (simp add: daysBeforeMonth_def)

lemma MakeDay_bound:
  assumes "100 \<le> y" "y \<le> 9999" "- 1 \<le> m" "m \<le> 11" "0 \<le> d" "d \<le> 32"
  shows "\<bar>MakeDay y m d\<bar> \<le> 3000400"
proof -
  have "m div 12 = 0 \<or> m div 12 = - 1" using assms(3,4) by arith
  then have "99 \<le> y + m div 12" "y + m div 12 \<le> 9999" using assms(1,2) by auto
  then have "\<bar>DayFromYear (y + m div 12)\<bar> \<le> 3000000" by (rule DayFromYear_bound)
  moreover have "MakeDay y m d =
      DayFromYear (y + m div 12) + daysBeforeMonth (y + m div 12) (m mod 12) + d - 1"
    by (simp add: MakeDay_def Let_def)
  ultimately show ?thesis
    using daysBeforeMonth_bound [of "y + m div 12" "m mod 12"] assms(5,6) by linarith
qed

lemma TimeClip_MakeDate:
  "\<bar>day\<bar> \<le> 3000400 \<Longrightarrow> 0 \<le> time \<Longrightarrow> time < msPerDay \<Longrightarrow>
     TimeClip (MakeDate day time) = Some (MakeDate day time)"
  by (simp add: TimeClip_def MakeDate_def msPerDay_def)

lemma DaysInMonth_le: "0 \<le> m \<Longrightarrow> m \<le> 11 \<Longrightarrow> DaysInMonth y m \<le> 31"
  using month_cases [of m] leap_cases [of y]
  by (elim disjE) (simp_all add: DaysInMonth_def daysBeforeMonth_def)

lemma calculatePeriod_when_day_fits:
  assumes y: "100 \<le> year" "year \<le> 9999" and m: "1 \<le> month" "month \<le> 12"
    and c: "0 \<le> closingDay" "closingDay + 1 \<le> DaysInMonth year (month - 1)"
  shows "calculatePeriod year month closingDay =
           (Some (MakeDate (MakeDay year (month - 2) (closingDay + 1)) 0),
            Some (MakeDate (MakeDay year (month - 1) closingDay) (MakeTime 23 59 59 999)))"
proof -
  let ?t0 = "MakeDate (MakeDay year (month - 1) (closingDay + 1)) 0"
  let ?t1 = "MakeDate (MakeDay year (month - 2) (closingDay + 1)) 0"
  let ?e0 = "MakeDate (MakeDay year (month - 1) closingDay) 0"
  let ?e1 = "MakeDate (MakeDay year (month - 1) closingDay) (MakeTime 23 59 59 999)"
  have m': "0 \<le> month - 1" "month - 1 \<le> 11" using m by simp_all
  have c32: "closingDay + 1 \<le> 32" "closingDay \<le> 32"
    using c DaysInMonth_le [OF m', of year] by simp_all
  have zero: "MakeTime 0 0 0 0 = 0" by (simp add: MakeTime_def)
  have late: "0 \<le> MakeTime 23 59 59 999" "MakeTime 23 59 59 999 < msPerDay"
    by (simp_all add: MakeTime_def msPerDay_def msPerHour_def msPerMinute_def msPerSecond_def)
  have day0: "0 \<le> (0::int)" "0 < msPerDay" by (simp_all add: msPerDay_def)
  have b0: "\<bar>MakeDay year (month - 1) (closingDay + 1)\<bar> \<le> 3000400"
    using y m c c32 by (intro MakeDay_bound) simp_all
  have b1: "\<bar>MakeDay year (month - 2) (closingDay + 1)\<bar> \<le> 3000400"
    using y m c c32 by (intro MakeDay_bound) simp_all
  have b2: "\<bar>MakeDay year (month - 1) closingDay\<bar> \<le> 3000400"
    using y m c c32 by (intro MakeDay_bound) simp_all
  have n0: "newDate year (month - 1) (closingDay + 1) = Some ?t0"
    using y TimeClip_MakeDate [OF b0 day0] by (simp add: newDate_def zero)
  have civ: "YearFromTime ?t0 = year \<and> MonthFromTime ?t0 = month - 1 \<and>
      DateFromTime ?t0 = closingDay + 1"
    using c by (intro civil_of_MakeDay m' Day_MakeDate day0) simp_all
  have s1: "setMonth (Some ?t0) (Some (month - 2)) = Some ?t1"
    using civ TimeClip_MakeDate [OF b1 day0]
    by (simp add: setMonth_def TimeWithinDay_MakeDate day0)
  have s2: "setHours (Some ?t1) (Some 0) (Some 0) 0 0 = Some ?t1"
    using TimeClip_MakeDate [OF b1 day0] by (simp add: setHours_def zero Day_MakeDate day0)
  have n1: "newDate year (month - 1) closingDay = Some ?e0"
    using y TimeClip_MakeDate [OF b2 day0] by (simp add: newDate_def zero)
  have s3: "setHours (Some ?e0) (Some 23) (Some 59) 59 999 = Some ?e1"
    using TimeClip_MakeDate [OF b2 late] by (simp add: setHours_def Day_MakeDate day0)
  show ?thesis
    using civ by (simp add: calculatePeriod_def n0 getMonth_def s1 s2 n1 s3)
qed

text \<open>
  The example of the specification: for January 2025 and closing day 25 the period runs
  from 2024-12-26 00:00:00 to 2025-01-25 23:59:59.999.
\<close>

lemma period_2025_1_25:
  "calculatePeriod 2025 1 25 = (Some (localTime 2024 12 26 0 0), Some (endOfDay 2025 1 25))"
proof -
  have "calculatePeriod 2025 1 25 =
      (Some (MakeDate (MakeDay 2025 (1 - 2) (25 + 1)) 0),
       Some (MakeDate (MakeDay 2025 (1 - 1) 25) (MakeTime 23 59 59 999)))"
    by (rule calculatePeriod_when_day_fits)
       (simp_all add: DaysInMonth_def daysBeforeMonth_def DaysInYear_def)
  then show ?thesis by (simp add: localTime_def endOfDay_def time_defs)
qed

section \<open>Lemmas on the day and on the loop over the days\<close>

lemma find_type_None: "find (\<lambda>r. type r = k) rs = None \<longleftrightarrow> k \<notin> type ` set rs"
  by (auto simp: find_None_iff)

lemma list_ex_type: "list_ex (\<lambda>r. type r = k) rs \<longleftrightarrow> k \<in> type ` set rs"
  by (auto simp: list_ex_iff)

lemma calculateDayWorkData_no_clock_in:
  "clock_in \<notin> type ` set dayRecords \<Longrightarrow>
     calculateDayWorkData dayRecords employeeConfig date = None"
  by (simp add: calculateDayWorkData_def find_type_None [symmetric])

lemma calculateDayWorkData_no_clock_out:
  "clock_out \<notin> type ` set dayRecords \<Longrightarrow>
     calculateDayWorkData dayRecords employeeConfig date = None"
  by (simp add: calculateDayWorkData_def find_type_None [symmetric] split: option.splits)

lemma summarizeDay_paid_leave:
  assumes "paid_leave \<in> type ` set dayRecords"
  shows "summarizeDay employeeConfig (k, dayRecords) acc =
           (dayRecords, acc\<lparr>paidLeaveDays := paidLeaveDays acc + 1\<rparr>)"
  using assms by (simp add: summarizeDay_def list_ex_type split: prod.splits)

lemma summarizeDay_absence:
  assumes "paid_leave \<notin> type ` set dayRecords" and "absence \<in> type ` set dayRecords"
  shows "summarizeDay employeeConfig (k, dayRecords) acc =
           (dayRecords, acc\<lparr>absenceDays := absenceDays acc + 1\<rparr>)"
  using assms by (simp add: summarizeDay_def list_ex_type split: prod.splits)

lemma summarizeDay_no_data:
  assumes "clock_out \<notin> type ` set dayRecords"
  shows "workingDays (snd (summarizeDay employeeConfig (k, dayRecords) acc)) = workingDays acc"
    and "totalWorkMinutes (snd (summarizeDay employeeConfig (k, dayRecords) acc)) =
           totalWorkMinutes acc"
proof -
  obtain y m d where k: "k = (y, m, d)" by (cases k)
  have "calculateDayWorkData (sort_key timestamp dayRecords) (Some employeeConfig)
          (Some (newDate y (m - 1) d)) = None"
    using assms by (intro calculateDayWorkData_no_clock_out) simp
  then show "workingDays (snd (summarizeDay employeeConfig (k, dayRecords) acc)) = workingDays acc"
    and "totalWorkMinutes (snd (summarizeDay employeeConfig (k, dayRecords) acc)) =
           totalWorkMinutes acc"
    by (simp_all add: summarizeDay_def Let_def k)
qed

text \<open>
  What a day adds to \<open>workingDays\<close> and to \<open>totalWorkMinutes\<close> does not depend on the
  totals so far.
\<close>

lemma summarizeDay_workingDays:
  "workingDays (snd (summarizeDay c e acc)) =
     workingDays acc + workingDays (snd (summarizeDay c e noTotals))"
  by (cases e) (simp add: summarizeDay_def addDayData_def noTotals_def Let_def
      split: prod.splits option.splits)

lemma summarizeDay_totalWorkMinutes:
  "totalWorkMinutes (snd (summarizeDay c e acc)) =
     totalWorkMinutes acc + totalWorkMinutes (snd (summarizeDay c e noTotals))"
  by (cases e) (simp add: summarizeDay_def addDayData_def noTotals_def Let_def
      split: prod.splits option.splits)

lemma summarizeDays_workingDays:
  "workingDays (snd (summarizeDays c es acc)) =
     workingDays acc + (\<Sum>e\<leftarrow>es. workingDays (snd (summarizeDay c e noTotals)))"
proof (induction es arbitrary: acc)
  case Nil
  then show ?case by simp
next
  case (Cons e es)
  show ?case
    using Cons [of "snd (summarizeDay c e acc)"] summarizeDay_workingDays [of c e acc]
    by (simp add: split_beta Let_def)
qed

lemma summarizeDays_totalWorkMinutes:
  "totalWorkMinutes (snd (summarizeDays c es acc)) =
     totalWorkMinutes acc + (\<Sum>e\<leftarrow>es. totalWorkMinutes (snd (summarizeDay c e noTotals)))"
proof (induction es arbitrary: acc)
  case Nil
  then show ?case by simp
next
  case (Cons e es)
  show ?case
    using Cons [of "snd (summarizeDay c e acc)"] summarizeDay_totalWorkMinutes [of c e acc]
    by (simp add: split_beta Let_def)
qed


section \<open>Days without a clock-in or without a clock-out\<close>

text \<open>
  Claim C4. A day without a \<open>clock_in\<close> record has no day data: \<open>calculateDayWorkData\<close>
  returns \<open>null\<close>. A day without a \<open>clock_out\<close> record has none either, and the period
  totals do not see it: with the day or without it, the loop over the days of the
  period ends with the same \<open>workingDays\<close> and the same \<open>totalWorkMinutes\<close>.
\<close>

theorem day_without_clock_in_or_out_excluded:
  "(clock_in \<notin> type ` set dayRecords \<longrightarrow>
      calculateDayWorkData dayRecords employeeConfig date = None) \<and>
   (clock_out \<notin> type ` set dayRecords \<longrightarrow>
      calculateDayWorkData dayRecords employeeConfig date = None \<and>
      workingDays (snd (summarizeDays c (before @ (k, dayRecords) # after) acc)) =
        workingDays (snd (summarizeDays c (before @ after) acc)) \<and>
      totalWorkMinutes (snd (summarizeDays c (before @ (k, dayRecords) # after) acc)) =
        totalWorkMinutes (snd (summarizeDays c (before @ after) acc)))"
proof (intro conjI impI)
  assume a: "clock_out \<notin> type ` set dayRecords"
  have "workingDays (snd (summarizeDay c (k, dayRecords) noTotals)) = 0"
    using summarizeDay_no_data(1) [OF a, of c k noTotals] by (simp add: noTotals_def)
  then show "workingDays (snd (summarizeDays c (before @ (k, dayRecords) # after) acc)) =
      workingDays (snd (summarizeDays c (before @ after) acc))"
    by (simp add: summarizeDays_workingDays)
  have "totalWorkMinutes (snd (summarizeDay c (k, dayRecords) noTotals)) = 0"
    using summarizeDay_no_data(2) [OF a, of c k noTotals] by (simp add: noTotals_def)
  then show "totalWorkMinutes (snd (summarizeDays c (before @ (k, dayRecords) # after) acc)) =
      totalWorkMinutes (snd (summarizeDays c (before @ after) acc))"
    by (simp add: summarizeDays_totalWorkMinutes)
qed (simp_all add: calculateDayWorkData_no_clock_in calculateDayWorkData_no_clock_out)

theorem day_without_clock_in_or_out_excluded_witness:
  "clock_in \<notin> type ` set ([] :: attendance list) \<and>
   calculateDayWorkData [] (Some schedule_9_18) None = None \<and>
   clock_out \<notin> type ` set dayWithoutClockOut \<and>
   calculateDayWorkData dayWithoutClockOut (Some schedule_9_18) None = None \<and>
   workingDays (snd (summarizeDays schedule_9_18
       [((2025, 1, 6), dayWithoutClockOut), ((2025, 1, 7), [])] noTotals)) =
     workingDays (snd (summarizeDays schedule_9_18 [((2025, 1, 7), [])] noTotals)) \<and>
   totalWorkMinutes (snd (summarizeDays schedule_9_18
       [((2025, 1, 6), dayWithoutClockOut), ((2025, 1, 7), [])] noTotals)) =
     totalWorkMinutes (snd (summarizeDays schedule_9_18 [((2025, 1, 7), [])] noTotals))"
  using day_without_clock_in_or_out_excluded
    [of "[]" "Some schedule_9_18" None schedule_9_18 "[]" "(2025, 1, 6)" "[((2025, 1, 7), [])]"
      noTotals]
    day_without_clock_in_or_out_excluded
    [of dayWithoutClockOut "Some schedule_9_18" None schedule_9_18 "[]" "(2025, 1, 6)"
      "[((2025, 1, 7), [])]" noTotals]
  by (simp add: dayWithoutClockOut_def punch_def)

section \<open>Paid leave and absence\<close>

text \<open>
  Claim C5, as the claim states it, fails on a day that holds both a \<open>paid_leave\<close> and
  an \<open>absence\<close> record: the day contains an absence, and \<open>absenceDays\<close> stays as it
  was.
\<close>

theorem absence_with_paid_leave_not_counted:
  "absence \<in> type ` set dayOfLeaveAndAbsence \<and>
   absenceDays (snd (summarizeDay schedule_9_18 ((2025, 1, 6), dayOfLeaveAndAbsence) noTotals)) =
     absenceDays noTotals"
  by (simp add: summarizeDay_def dayOfLeaveAndAbsence_def punch_def noTotals_def)

text \<open>
  Claim C5, amended. A day with a \<open>paid_leave\<close> record adds one to \<open>paidLeaveDays\<close>; a
  day with an \<open>absence\<close> record and no \<open>paid_leave\<close> record adds one to
  \<open>absenceDays\<close>. In both cases nothing else in the totals changes, whatever clock
  records the day holds (so \<open>workingDays\<close> and \<open>totalWorkMinutes\<close> stay), and the work
  time is not computed: the array of the day is not even sorted.
\<close>

theorem leave_or_absence_day_short_circuits:
  "(paid_leave \<in> type ` set dayRecords \<longrightarrow>
      summarizeDay employeeConfig (k, dayRecords) acc =
        (dayRecords, acc\<lparr>paidLeaveDays := paidLeaveDays acc + 1\<rparr>)) \<and>
   (absence \<in> type ` set dayRecords \<and> paid_leave \<notin> type ` set dayRecords \<longrightarrow>
      summarizeDay employeeConfig (k, dayRecords) acc =
        (dayRecords, acc\<lparr>absenceDays := absenceDays acc + 1\<rparr>))"
  by (simp add: summarizeDay_paid_leave summarizeDay_absence)

theorem leave_or_absence_day_short_circuits_witness:
  "paid_leave \<in> type ` set dayOfLeaveAndAbsence \<and>
   summarizeDay schedule_9_18 ((2025, 1, 6), dayOfLeaveAndAbsence) noTotals =
     (dayOfLeaveAndAbsence, noTotals\<lparr>paidLeaveDays := 1\<rparr>) \<and>
   absence \<in> type ` set dayOfAbsence \<and> paid_leave \<notin> type ` set dayOfAbsence \<and>
   summarizeDay schedule_9_18 ((2025, 1, 6), dayOfAbsence) noTotals =
     (dayOfAbsence, noTotals\<lparr>absenceDays := 1\<rparr>)"
  using leave_or_absence_day_short_circuits
    [of dayOfLeaveAndAbsence schedule_9_18 "(2025, 1, 6)" noTotals]
    leave_or_absence_day_short_circuits
    [of dayOfAbsence schedule_9_18 "(2025, 1, 6)" noTotals]
  by (simp add: dayOfLeaveAndAbsence_def dayOfAbsence_def punch_def noTotals_def)

text \<open>
  Claim C10. On a day that holds both a \<open>paid_leave\<close> and an \<open>absence\<close> record the paid
  leave wins: \<open>paidLeaveDays\<close> grows by one and nothing else changes, \<open>absenceDays\<close>
  included. Over a whole period no day is counted twice: the three counters
  \<open>paidLeaveDays\<close>, \<open>absenceDays\<close> and \<open>workingDays\<close> together grow by at most one for
  each day.
\<close>

lemma summarizeDay_counts_once:
  "paidLeaveDays (snd (summarizeDay c e acc)) + absenceDays (snd (summarizeDay c e acc)) +
     workingDays (snd (summarizeDay c e acc))
   \<le> paidLeaveDays acc + absenceDays acc + workingDays acc + 1"
  by (cases e) (simp add: summarizeDay_def addDayData_def Let_def
      split: prod.splits option.splits)

lemma summarizeDays_counts_once:
  "paidLeaveDays (snd (summarizeDays c es acc)) + absenceDays (snd (summarizeDays c es acc)) +
     workingDays (snd (summarizeDays c es acc))
   \<le> paidLeaveDays acc + absenceDays acc + workingDays acc + length es"
proof (induction es arbitrary: acc)
  case Nil
  then show ?case by simp
next
  case (Cons e es)
  show ?case
    using Cons [of "snd (summarizeDay c e acc)"] summarizeDay_counts_once [of c e acc]
    by (simp add: split_beta Let_def)
qed

theorem paid_leave_precedes_absence:
  "(paid_leave \<in> type ` set dayRecords \<and> absence \<in> type ` set dayRecords \<longrightarrow>
      snd (summarizeDay employeeConfig (k, dayRecords) acc) =
        acc\<lparr>paidLeaveDays := paidLeaveDays acc + 1\<rparr> \<and>
      absenceDays (snd (summarizeDay employeeConfig (k, dayRecords) acc)) = absenceDays acc) \<and>
   paidLeaveDays (snd (summarizeDays employeeConfig days acc)) +
     absenceDays (snd (summarizeDays employeeConfig days acc)) +
     workingDays (snd (summarizeDays employeeConfig days acc))
   \<le> paidLeaveDays acc + absenceDays acc + workingDays acc + length days"
  by (simp add: summarizeDay_paid_leave summarizeDays_counts_once)

theorem paid_leave_precedes_absence_witness:
  "paid_leave \<in> type ` set dayOfLeaveAndAbsence \<and> absence \<in> type ` set dayOfLeaveAndAbsence \<and>
   snd (summarizeDay schedule_9_18 ((2025, 1, 6), dayOfLeaveAndAbsence) noTotals) =
     noTotals\<lparr>paidLeaveDays := 1\<rparr> \<and>
   absenceDays (snd (summarizeDay schedule_9_18 ((2025, 1, 6), dayOfLeaveAndAbsence) noTotals))
     = 0"
  using paid_leave_precedes_absence
    [of dayOfLeaveAndAbsence schedule_9_18 "(2025, 1, 6)" noTotals "[]"]
  by (simp add: dayOfLeaveAndAbsence_def punch_def noTotals_def)


section \<open>Break pairing\<close>

lemma findBreakEnd_drop:
  "findBreakEnd records j = find (\<lambda>e. type e = break_end) (drop j records)"
proof (induction records j rule: findBreakEnd.induct)
  case (1 records j)
  show ?case
  proof (cases "j < length records")
    case True
    then have d: "drop j records = records ! j # drop (Suc j) records"
      by (simp add: Cons_nth_drop_Suc)
    show ?thesis
      using True 1 by (subst findBreakEnd.simps) (simp add: d)
  next
    case False
    then show ?thesis by (subst findBreakEnd.simps) simp
  qed
qed

lemma pairBreaks_drop:
  "pairBreaks records i breakPairs = breakPairs @ closedBreaks (drop i records)"
proof (induction records i breakPairs rule: pairBreaks.induct)
  case (1 records i breakPairs)
  show ?case
  proof (cases "i < length records")
    case True
    then have d: "drop i records = records ! i # drop (Suc i) records"
      by (simp add: Cons_nth_drop_Suc)
    show ?thesis
      using True 1
      by (subst pairBreaks.simps) (simp add: d findBreakEnd_drop split: option.splits)
  next
    case False
    then show ?thesis by (subst pairBreaks.simps) simp
  qed
qed

lemma pairBreaks_closedBreaks: "pairBreaks records 0 [] = closedBreaks records"
  by (simp add: pairBreaks_drop)

lemma sumBreaks_drop:
  "sumBreaks records i breakMs = breakMs + (\<Sum>p\<leftarrow>closedBreaks (drop i records). snd p - fst p)"
proof (induction records i breakMs rule: sumBreaks.induct)
  case (1 records i breakMs)
  show ?case
  proof (cases "i < length records")
    case True
    then have d: "drop i records = records ! i # drop (Suc i) records"
      by (simp add: Cons_nth_drop_Suc)
    show ?thesis
      using True 1
      by (subst sumBreaks.simps) (simp add: d findBreakEnd_drop split: option.splits)
  next
    case False
    then show ?thesis by (subst sumBreaks.simps) simp
  qed
qed

lemma closedBreaks_index:
  "closedBreaks records =
     concat (map (\<lambda>i. if type (records ! i) = break_start
                       then (case find (\<lambda>e. type e = break_end) (drop (Suc i) records) of
                               Some e \<Rightarrow> [(timestamp (records ! i), timestamp e)]
                             | None \<Rightarrow> [])
                       else []) [0..<length records])"
proof (induction records)
  case Nil
  then show ?case by simp
next
  case (Cons r rs)
  have "[0..<length (r # rs)] = 0 # map Suc [0..<length rs]"
    by (simp add: upt_conv_Cons map_Suc_upt del: upt_Suc)
  then show ?case
    using Cons by (simp add: comp_def cong: if_cong option.case_cong split: option.splits)
qed

lemma find_other_skip:
  "type b \<noteq> k \<Longrightarrow> find (\<lambda>r. type r = k) (xs @ b # ys) = find (\<lambda>r. type r = k) (xs @ ys)"
  by (induction xs) auto

lemma closedBreaks_unterminated:
  assumes "type b = break_start" and "break_end \<notin> type ` set ys"
  shows "closedBreaks (xs @ b # ys) = closedBreaks (xs @ ys)"
proof (induction xs)
  case Nil
  then show ?case using assms by (simp add: find_type_None [symmetric])
next
  case (Cons x xs)
  have "find (\<lambda>r. type r = break_end) (xs @ b # ys) = find (\<lambda>r. type r = break_end) (xs @ ys)"
    using assms(1) by (intro find_other_skip) simp
  then show ?case using Cons by (simp split: option.splits)
qed

lemma stackPairs_alternate:
  "(breaksAlternate False rs \<longrightarrow> stackPairs [] rs = closedBreaks rs) \<and>
   (breaksAlternate True rs \<longrightarrow>
      stackPairs [s] rs =
        (case find (\<lambda>e. type e = break_end) rs of
           Some e \<Rightarrow> (s, timestamp e) # closedBreaks rs
         | None \<Rightarrow> closedBreaks rs))"
  by (induction rs arbitrary: s) (auto split: option.splits)

lemma breakMsOf_sum: "breakMsOf ps = (\<Sum>p\<leftarrow>ps. snd p - fst p)"
proof -
  have "foldl (\<lambda>breakMs pair. breakMs + (snd pair - fst pair)) a ps =
      a + (\<Sum>p\<leftarrow>ps. snd p - fst p)" for a :: int
    by (induction ps arbitrary: a) simp_all
  then show ?thesis by (simp add: breakMsOf_def)
qed

lemma find_type_Some: "k \<in> type ` set rs \<Longrightarrow> \<exists>r. find (\<lambda>r. type r = k) rs = Some r"
  using find_type_None [of k rs] by (cases "find (\<lambda>r. type r = k) rs") auto

lemma twoStartsOneEnd_pairs:
  "pairBreaks twoStartsOneEnd 0 [] =
     [(localTime 2025 1 6 12 0, localTime 2025 1 6 13 0),
      (localTime 2025 1 6 12 30, localTime 2025 1 6 13 0)]"
  by (simp add: pairBreaks_closedBreaks twoStartsOneEnd_def punch_def)

text \<open>
  Claim C3, as the claim states it, fails on two breaks started at 12:00 and 12:30 with
  one return at 13:00: the code closes both starts with the one \<open>break_end\<close>, where the
  stack discipline closes the start of 12:30 only.
\<close>

theorem break_end_closes_two_starts:
  "pairBreaks twoStartsOneEnd 0 [] =
     [(localTime 2025 1 6 12 0, localTime 2025 1 6 13 0),
      (localTime 2025 1 6 12 30, localTime 2025 1 6 13 0)] \<and>
   stackPairs [] twoStartsOneEnd = [(localTime 2025 1 6 12 30, localTime 2025 1 6 13 0)]"
  by (simp add: pairBreaks_closedBreaks twoStartsOneEnd_def punch_def)

text \<open>
  Claim C3, amended. Break pairing is first match forward: the output lists, in the
  order of the \<open>break_start\<close> records, each \<open>break_start\<close> with the first \<open>break_end\<close>
  that follows it in the list, and leaves out a \<open>break_start\<close> that none follows. So
  one \<open>break_end\<close> closes every \<open>break_start\<close> before it that is still open. The loop of
  monthly.js adds up the lengths of the same pairs. On a day where no break is started
  while another one is open, this is the stack discipline.
\<close>

theorem break_pairing_first_match_forward:
  "pairBreaks records 0 [] =
     concat (map (\<lambda>i. if type (records ! i) = break_start
                       then (case find (\<lambda>e. type e = break_end) (drop (Suc i) records) of
                               Some e \<Rightarrow> [(timestamp (records ! i), timestamp e)]
                             | None \<Rightarrow> [])
                       else []) [0..<length records]) \<and>
   sumBreaks records 0 0 = (\<Sum>p\<leftarrow>pairBreaks records 0 []. snd p - fst p) \<and>
   (breaksAlternate False records \<longrightarrow> pairBreaks records 0 [] = stackPairs [] records)"
  using closedBreaks_index [of records] stackPairs_alternate [of records]
  by (simp add: pairBreaks_closedBreaks sumBreaks_drop)

theorem break_pairing_first_match_forward_witness:
  "breaksAlternate False dayWithBreak \<and>
   pairBreaks dayWithBreak 0 [] = stackPairs [] dayWithBreak \<and>
   stackPairs [] dayWithBreak = [(localTime 2025 1 6 12 0, localTime 2025 1 6 13 0)]"
  using break_pairing_first_match_forward [of dayWithBreak]
  by (simp add: dayWithBreak_def punch_def)

section \<open>A break that is not ended\<close>

lemma dayLeftOnBreak_workTime:
  "calculateWorkTime (localTime 2025 1 6 20 0) dayLeftOnBreak =
     Some \<lparr>hours = 9, minutes = 0, isFinished = True, isOnBreak = False\<rparr>"
  by (simp add: calculateWorkTime_def dayLeftOnBreak_def punch_def pairBreaks_closedBreaks
      localTime_2025_1_6 breakMsOf_def jsRem_def)

text \<open>
  Claim C7, as the claim states it, fails on the day with a \<open>clock_in\<close> at 09:00, a
  \<open>break_start\<close> at 12:00 and a \<open>clock_out\<close> at 18:00: no \<open>break_end\<close> follows the
  \<open>break_start\<close>, and the flag \<open>isOnBreak\<close> of the result is not set.
\<close>

theorem open_break_before_clock_out_not_flagged:
  "type (dayLeftOnBreak ! 1) = break_start \<and>
   break_end \<notin> type ` set (drop 2 dayLeftOnBreak) \<and>
   map_option isOnBreak (calculateWorkTime (localTime 2025 1 6 20 0) dayLeftOnBreak) =
     Some False"
  by (simp add: dayLeftOnBreak_workTime) (simp add: dayLeftOnBreak_def punch_def)

text \<open>
  Claim C7, amended. Let a day with a \<open>clock_in\<close> hold a \<open>break_start\<close> \<open>b\<close> that no
  \<open>break_end\<close> follows. Then \<open>b\<close> makes no pair and subtracts nothing: the pairs, the
  hours and the minutes are those of the day without \<open>b\<close>. The computation returns a
  result. The flag \<open>isOnBreak\<close> of the result is set exactly when the last record of the
  day is a \<open>break_start\<close>: an open break that other records follow is not flagged.
\<close>

theorem unterminated_break_subtracts_nothing:
  "type b = break_start \<and> break_end \<notin> type ` set after \<and>
   clock_in \<in> type ` set (before @ b # after) \<longrightarrow>
     pairBreaks (before @ b # after) 0 [] = pairBreaks (before @ after) 0 [] \<and>
     calculateWorkTime now (before @ b # after) \<noteq> None \<and>
     map_option hours (calculateWorkTime now (before @ b # after)) =
       map_option hours (calculateWorkTime now (before @ after)) \<and>
     map_option minutes (calculateWorkTime now (before @ b # after)) =
       map_option minutes (calculateWorkTime now (before @ after)) \<and>
     map_option isOnBreak (calculateWorkTime now (before @ b # after)) =
       Some (type (last (b # after)) = break_start)"
proof (intro impI, elim conjE)
  assume b: "type b = break_start" and e: "break_end \<notin> type ` set after"
    and ci: "clock_in \<in> type ` set (before @ b # after)"
  let ?rs = "before @ b # after"
  have p: "pairBreaks ?rs 0 [] = pairBreaks (before @ after) 0 []"
    using closedBreaks_unterminated [OF b e] by (simp add: pairBreaks_closedBreaks)
  obtain r where r: "find (\<lambda>r. type r = clock_in) ?rs = Some r"
    using find_type_Some [OF ci] by blast
  have f1: "find (\<lambda>r. type r = clock_in) ?rs = find (\<lambda>r. type r = clock_in) (before @ after)"
    using b by (intro find_other_skip) simp
  have f2: "find (\<lambda>r. type r = clock_out) ?rs = find (\<lambda>r. type r = clock_out) (before @ after)"
    using b by (intro find_other_skip) simp
  have l: "?rs ! (length ?rs - 1) = last (b # after)"
    by (metis last_appendR last_conv_nth list.distinct(1) append_is_Nil_conv)
  show "pairBreaks ?rs 0 [] = pairBreaks (before @ after) 0 [] \<and>
     calculateWorkTime now ?rs \<noteq> None \<and>
     map_option hours (calculateWorkTime now ?rs) =
       map_option hours (calculateWorkTime now (before @ after)) \<and>
     map_option minutes (calculateWorkTime now ?rs) =
       map_option minutes (calculateWorkTime now (before @ after)) \<and>
     map_option isOnBreak (calculateWorkTime now ?rs) =
       Some (type (last (b # after)) = break_start)"
    using r l unfolding calculateWorkTime_def f1 [symmetric] f2 [symmetric] p [symmetric]
    by (simp add: Let_def)
qed

theorem unterminated_break_subtracts_nothing_witness:
  "type (punch break_start (localTime 2025 1 6 12 0)) = break_start \<and>
   break_end \<notin> type ` set ([] :: attendance list) \<and>
   clock_in \<in> type ` set dayOnBreak \<and>
   pairBreaks dayOnBreak 0 [] = pairBreaks [punch clock_in (localTime 2025 1 6 9 0)] 0 [] \<and>
   map_option hours (calculateWorkTime (localTime 2025 1 6 13 0) dayOnBreak) = Some 4 \<and>
   map_option isOnBreak (calculateWorkTime (localTime 2025 1 6 13 0) dayOnBreak) = Some True"
  using unterminated_break_subtracts_nothing
    [of "punch break_start (localTime 2025 1 6 12 0)" "[]"
      "[punch clock_in (localTime 2025 1 6 9 0)]" "localTime 2025 1 6 13 0"]
  by (simp add: dayOnBreak_def punch_def calculateWorkTime_def pairBreaks_closedBreaks
      localTime_2025_1_6 breakMsOf_def)


section \<open>Worked minutes and breaks\<close>

text \<open>
  Claim C1, as the claim states it, fails on its own example: for the day with a
  \<open>clock_in\<close> at 09:00, a break from 12:00 to 13:00 and a \<open>clock_out\<close> at 18:00 under the
  schedule 09:00 to 18:00 with eight standard hours, \<open>calculateDayWorkData\<close> gives
  \<open>workMinutes = 540\<close> and \<open>overtimeMinutes = 60\<close>, not 480 and 0. It never looks at the
  break records.
\<close>

theorem break_not_deducted_in_day_work_data:
  "map_option workMinutes (calculateDayWorkData dayWithBreak (Some schedule_9_18) None) =
     Some 540 \<and>
   map_option workMinutes (calculateDayWorkData dayWithBreak (Some schedule_9_18) None) \<noteq>
     Some 480 \<and>
   map_option overtimeMinutes (calculateDayWorkData dayWithBreak (Some schedule_9_18) None) =
     Some 60"
  by (simp add: dayWithBreak_data)

text \<open>
  Claim C1, amended. For a day with a \<open>clock_in\<close> and a \<open>clock_out\<close>, \<open>workMinutes\<close> of
  the day data is the gross time in whole minutes, \<open>clock_out\<close> minus \<open>clock_in\<close>;
  no break is deducted and nothing is clamped at zero. The work time that
  \<open>calculateWorkTime\<close> displays is the gross time minus the summed lengths of the closed
  break intervals, in whole minutes, not clamped either. For the example day the
  display is 8 hours 0 minutes, and the day data has \<open>workMinutes = 540\<close>,
  \<open>overtimeMinutes = 60\<close>, \<open>lateMinutes = 0\<close> and \<open>earlyLeaveMinutes = 0\<close>.
\<close>

theorem work_minutes_gross_work_time_net:
  "(find (\<lambda>r. type r = clock_in) records = Some clockIn \<and>
    find (\<lambda>r. type r = clock_out) records = Some clockOut \<longrightarrow>
      map_option workMinutes (calculateDayWorkData records employeeConfig date) =
        Some ((timestamp clockOut - timestamp clockIn) div 60000) \<and>
      map_option hours (calculateWorkTime now records) =
        Some ((timestamp clockOut - timestamp clockIn
                 - (\<Sum>p\<leftarrow>closedBreaks records. snd p - fst p)) div 60000 div 60) \<and>
      map_option minutes (calculateWorkTime now records) =
        Some (jsRem ((timestamp clockOut - timestamp clockIn
                 - (\<Sum>p\<leftarrow>closedBreaks records. snd p - fst p)) div 60000) 60)) \<and>
   calculateDayWorkData dayWithBreak (Some schedule_9_18) None =
     Some \<lparr>workMinutes = 540, workHours = 9, overtimeMinutes = 60, overtimeHours = 1,
           lateMinutes = 0, isLate = False, earlyLeaveMinutes = 0, isEarlyLeave = False,
           isHolidayWork = False\<rparr> \<and>
   calculateWorkTime now dayWithBreak =
     Some \<lparr>hours = 8, minutes = 0, isFinished = True, isOnBreak = False\<rparr>"
  by (simp add: dayWithBreak_data dayWithBreak_workTime)
     (simp add: calculateDayWorkData_def calculateWorkTime_def Let_def split_beta
        pairBreaks_closedBreaks breakMsOf_sum)

theorem work_minutes_gross_work_time_net_witness:
  "find (\<lambda>r. type r = clock_in) dayWithBreak = Some (punch clock_in (localTime 2025 1 6 9 0)) \<and>
   find (\<lambda>r. type r = clock_out) dayWithBreak = Some (punch clock_out (localTime 2025 1 6 18 0)) \<and>
   map_option workMinutes (calculateDayWorkData dayWithBreak (Some schedule_9_18) None) =
     Some 540 \<and>
   map_option hours (calculateWorkTime (localTime 2025 1 6 20 0) dayWithBreak) = Some 8 \<and>
   map_option minutes (calculateWorkTime (localTime 2025 1 6 20 0) dayWithBreak) = Some 0"
  using work_minutes_gross_work_time_net
    [of dayWithBreak "punch clock_in (localTime 2025 1 6 9 0)"
      "punch clock_out (localTime 2025 1 6 18 0)" "Some schedule_9_18" None
      "localTime 2025 1 6 20 0"]
  by (simp add: dayWithBreak_def punch_def)

section \<open>Overtime\<close>

text \<open>
  The figures of a day with a \<open>clock_in\<close> and a \<open>clock_out\<close>, where the start and the end
  of the schedule are numbers \<open>HH:MM\<close>: the minutes late and the minutes left early are
  the whole minutes between the time stamp and the scheduled instant of the same day,
  and zero when negative; the flags say whether they are positive; the holiday flag
  looks at the day of the week only. The overtime goes through the hours.
\<close>

lemma thresholds_of_the_day:
  assumes ci: "find (\<lambda>r. type r = clock_in) records = Some clockIn"
    and co: "find (\<lambda>r. type r = clock_out) records = Some clockOut"
    and s: "splitHourMinute (textSetting startTime employeeConfig) = (sh, sm)"
      "setHours (Some (timestamp clockIn)) sh sm 0 0 = Some scheduledStart"
    and e: "splitHourMinute (textSetting endTime employeeConfig) = (eh, em)"
      "setHours (Some (timestamp clockOut)) eh em 0 0 = Some scheduledEnd"
  shows "\<exists>d. calculateDayWorkData records employeeConfig date = Some d \<and>
    workMinutes d = (timestamp clockOut - timestamp clockIn) div 60000 \<and>
    overtimeMinutes d =
      \<lfloor>fmul (max 0 (fsub (fdiv (of_int (workMinutes d)) 60)
                         (numberSetting standardWorkTime employeeConfig))) 60\<rfloor> \<and>
    lateMinutes d = max 0 ((timestamp clockIn - scheduledStart) div 60000) \<and>
    isLate d = (0 < lateMinutes d) \<and>
    earlyLeaveMinutes d = max 0 ((scheduledEnd - timestamp clockOut) div 60000) \<and>
    isEarlyLeave d = (0 < earlyLeaveMinutes d) \<and>
    isHolidayWork d =
      (getDay (case date of None \<Rightarrow> Some (timestamp clockIn) | Some w \<Rightarrow> w) \<in> {Some 0, Some 6})"
proof -
  have "0 \<le> (timestamp clockIn - scheduledStart) div 60000"
    if "scheduledStart < timestamp clockIn"
    using that by (simp add: pos_imp_zdiv_nonneg_iff)
  moreover have "(timestamp clockIn - scheduledStart) div 60000 \<le> 0"
    if "\<not> scheduledStart < timestamp clockIn"
    using zdiv_mono1 [of "timestamp clockIn - scheduledStart" 0 60000] that by simp
  moreover have "0 \<le> (scheduledEnd - timestamp clockOut) div 60000"
    if "timestamp clockOut < scheduledEnd"
    using that by (simp add: pos_imp_zdiv_nonneg_iff)
  moreover have "(scheduledEnd - timestamp clockOut) div 60000 \<le> 0"
    if "\<not> timestamp clockOut < scheduledEnd"
    using zdiv_mono1 [of "scheduledEnd - timestamp clockOut" 0 60000] that by simp
  ultimately show ?thesis
    by (simp add: calculateDayWorkData_def ci co s e Let_def isHoliday_def max_def)
qed

lemma setHours_value:
  "setHours (Some t) (Some h) (Some m) 0 0 =
     TimeClip (Day t * msPerDay + h * msPerHour + m * msPerMinute)"
  by (simp add: setHours_def MakeDate_def MakeTime_def add.assoc)

lemma overtime_of_the_day:
  assumes c: "calculateDayWorkData records employeeConfig date = Some d"
    and w: "\<bar>workMinutes d\<bar> \<le> 2 ^ 31"
    and s: "0 \<le> numberSetting standardWorkTime employeeConfig"
      "numberSetting standardWorkTime employeeConfig \<le> 1000000"
      "roundToDouble (numberSetting standardWorkTime employeeConfig) =
         numberSetting standardWorkTime employeeConfig"
    and S: "real_of_int S = 60 * numberSetting standardWorkTime employeeConfig"
  shows "(workMinutes d \<le> S \<longrightarrow> overtimeMinutes d = 0) \<and>
    (S < workMinutes d \<longrightarrow>
       workMinutes d - S - 1 \<le> overtimeMinutes d \<and> overtimeMinutes d \<le> workMinutes d - S)"
proof -
  have "overtimeMinutes d =
      \<lfloor>fmul (max 0 (fsub (fdiv (of_int (workMinutes d)) 60)
                         (numberSetting standardWorkTime employeeConfig))) 60\<rfloor>"
    using c by (auto simp: calculateDayWorkData_def Let_def split: option.splits prod.splits)
  then show ?thesis
    using overtime_within_one_minute [OF w s(1,2) S s(3)] by simp
qed

text \<open>
  Claim C2 at the day with a \<open>clock_in\<close> at 09:00 and a \<open>clock_out\<close> at 17:02 under eight
  standard hours. The day has 482 worked minutes, two more than the standard 480, and
  the code reports one minute of overtime: it goes through the hours, where
  \<open>482 / 60 - 8\<close> is a double slightly below one thirtieth, and sixty times that is
  below 2.
\<close>

theorem overtime_of_482_minutes_is_1:
  "map_option workMinutes (calculateDayWorkData dayOf482Minutes (Some schedule_9_18) None) =
     Some 482 \<and>
   map_option overtimeMinutes (calculateDayWorkData dayOf482Minutes (Some schedule_9_18) None) =
     Some 1 \<and>
   max 0 (482 - 8 * 60) = (2 :: int)"
  by (simp add: dayOf482Minutes_data)

section \<open>The closing-day period\<close>

text \<open>
  Claim C6 at year 2025, month 4, closing day 30. Day 31 of the previous month is the
  31st of March. The code builds day 31 of April first, which is the first of May, and
  then steps one month back: its period starts on the first of April at 00:00, and ends
  on the 30th of April at 23:59:59.999.
\<close>

theorem closing_day_30_april_starts_1_april:
  "calculatePeriod 2025 4 30 = (Some (localTime 2025 4 1 0 0), Some (endOfDay 2025 4 30)) \<and>
   localTime 2025 4 1 0 0 \<noteq> localTime 2025 3 31 0 0"
  by (simp add: period_2025_4_30) (simp add: localTime_def time_defs)


section \<open>Records out of order\<close>

lemma sort_key_rearranged:
  assumes "set xs = set ys" and "distinct (map f xs)" and "distinct (map f ys)"
  shows "sort_key f xs = sort_key f ys"
proof -
  have "map f (sort_key f xs) = map f (sort_key f ys)"
  proof (rule sorted_distinct_set_unique)
    show "sorted (map f (sort_key f xs))" "sorted (map f (sort_key f ys))" by simp_all
    show "distinct (map f (sort_key f xs))" using assms(2) by (simp add: distinct_map)
    show "distinct (map f (sort_key f ys))" using assms(3) by (simp add: distinct_map)
    show "set (map f (sort_key f xs)) = set (map f (sort_key f ys))" using assms(1) by simp
  qed
  moreover have "inj_on f (set (sort_key f xs) \<union> set (sort_key f ys))"
    using assms by (simp add: distinct_map)
  ultimately show ?thesis by (simp add: inj_on_map_eq_map)
qed

lemma sort_key_twice: "sort_key f (sort_key f xs) = sort_key f xs"
  by (simp add: sort_key_id_if_sorted)

lemma summarizeDay_same_set:
  assumes "set records' = set records"
    and "sort_key timestamp records' = sort_key timestamp records"
  shows "snd (summarizeDay c (k, records') acc) = snd (summarizeDay c (k, records) acc)"
  using assms by (simp add: summarizeDay_def list_ex_iff Let_def split: prod.splits)

lemma summarizeDay_array:
  "fst (summarizeDay c (k, records) acc) =
     (if paid_leave \<in> type ` set records \<or> absence \<in> type ` set records then records
      else sort_key timestamp records)"
  by (simp add: summarizeDay_def list_ex_type Let_def split: prod.splits)

lemma dayOutOfOrder_summary:
  "summarizeDay schedule_9_18 ((2025, 1, 6), dayOutOfOrder) noTotals =
     ([punch clock_in (localTime 2025 1 6 9 0), punch clock_out (localTime 2025 1 6 18 0)],
      noTotals\<lparr>workingDays := 1, totalWorkMinutes := 540, totalOvertimeMinutes := 60,
               usedPCs := [''PC-1'']\<rparr>)"
  by (simp add: summarizeDay_def dayOutOfOrder_def day_defs localTime_2025_1_6
      splitHourMinute_0900 splitHourMinute_1800 time_defs nine_hours addDayData_def
      noTotals_def addPC_def newDate_def)

text \<open>
  Claim C8, as the claim states it, fails on a day handed over with the \<open>clock_out\<close> of
  18:00 before the \<open>clock_in\<close> of 09:00: the time stamps are not in order, and the day is
  neither rejected nor reported. Its array is put in order, and the day counts as one
  working day of 540 minutes.
\<close>

theorem out_of_order_day_is_sorted_and_counted:
  "\<not> sorted (map timestamp dayOutOfOrder) \<and>
   fst (summarizeDay schedule_9_18 ((2025, 1, 6), dayOutOfOrder) noTotals) =
     [punch clock_in (localTime 2025 1 6 9 0), punch clock_out (localTime 2025 1 6 18 0)] \<and>
   workingDays (snd (summarizeDay schedule_9_18 ((2025, 1, 6), dayOutOfOrder) noTotals)) = 1 \<and>
   totalWorkMinutes (snd (summarizeDay schedule_9_18 ((2025, 1, 6), dayOutOfOrder) noTotals)) =
     540"
  unfolding dayOutOfOrder_summary
  by (simp add: noTotals_def dayOutOfOrder_def punch_def localTime_2025_1_6)

text \<open>
  Claim C8, amended. The period calculation sorts the records of each day by time stamp
  before the day is computed, and rejects nothing: the totals of a day are those of its
  sorted records, the array of a day without paid leave and absence is left sorted, and
  where the time stamps of the day are pairwise distinct, the totals are the same for
  every order in which the records are handed over.
\<close>

theorem out_of_order_day_is_sorted:
  "snd (summarizeDay c (k, records) acc) =
     snd (summarizeDay c (k, sort_key timestamp records) acc) \<and>
   (paid_leave \<notin> type ` set records \<and> absence \<notin> type ` set records \<longrightarrow>
      fst (summarizeDay c (k, records) acc) = sort_key timestamp records \<and>
      sorted (map timestamp (fst (summarizeDay c (k, records) acc)))) \<and>
   (set records' = set records \<and> distinct (map timestamp records) \<and>
    distinct (map timestamp records') \<longrightarrow>
      snd (summarizeDay c (k, records') acc) = snd (summarizeDay c (k, records) acc))"
proof (intro conjI impI)
  show "snd (summarizeDay c (k, records) acc) =
      snd (summarizeDay c (k, sort_key timestamp records) acc)"
    by (rule summarizeDay_same_set [symmetric]) (simp_all add: sort_key_twice)
next
  assume "paid_leave \<notin> type ` set records \<and> absence \<notin> type ` set records"
  then show "fst (summarizeDay c (k, records) acc) = sort_key timestamp records"
    and "sorted (map timestamp (fst (summarizeDay c (k, records) acc)))"
    by (simp_all add: summarizeDay_array)
next
  assume "set records' = set records \<and> distinct (map timestamp records) \<and>
    distinct (map timestamp records')"
  then show "snd (summarizeDay c (k, records') acc) = snd (summarizeDay c (k, records) acc)"
    by (intro summarizeDay_same_set sort_key_rearranged) simp_all
qed

theorem out_of_order_day_is_sorted_witness:
  "paid_leave \<notin> type ` set dayOutOfOrder \<and> absence \<notin> type ` set dayOutOfOrder \<and>
   set (rev dayOutOfOrder) = set dayOutOfOrder \<and>
   distinct (map timestamp dayOutOfOrder) \<and> distinct (map timestamp (rev dayOutOfOrder)) \<and>
   fst (summarizeDay schedule_9_18 ((2025, 1, 6), dayOutOfOrder) noTotals) =
     sort_key timestamp dayOutOfOrder \<and>
   snd (summarizeDay schedule_9_18 ((2025, 1, 6), rev dayOutOfOrder) noTotals) =
     snd (summarizeDay schedule_9_18 ((2025, 1, 6), dayOutOfOrder) noTotals)"
proof -
  have a: "paid_leave \<notin> type ` set dayOutOfOrder \<and> absence \<notin> type ` set dayOutOfOrder"
    by (simp add: dayOutOfOrder_def punch_def)
  have "distinct (map timestamp dayOutOfOrder)"
    by (simp add: dayOutOfOrder_def punch_def localTime_2025_1_6)
  then have b: "set (rev dayOutOfOrder) = set dayOutOfOrder \<and>
      distinct (map timestamp dayOutOfOrder) \<and> distinct (map timestamp (rev dayOutOfOrder))"
    by (simp add: rev_map [symmetric])
  show ?thesis
    using a b out_of_order_day_is_sorted
      [of schedule_9_18 "(2025, 1, 6)" dayOutOfOrder noTotals "rev dayOutOfOrder"]
    by blast
qed

section \<open>Two runs on the same input\<close>

text \<open>
  On a host at UTC the calculation with the zone as a parameter is the calculation
  above.
\<close>

lemma calculateDayWorkDataAt_0:
  "calculateDayWorkDataAt 0 dayRecords employeeConfig date =
     calculateDayWorkData dayRecords employeeConfig date"
proof -
  have a: "setHoursAt 0 = setHours"
    by (intro ext) (simp add: setHoursAt_def setHours_def LocalTime_def UTC_def split: option.splits)
  have b: "isHolidayAt 0 = isHoliday"
    by (intro ext) (simp add: isHolidayAt_def isHoliday_def getDayAt_def getDay_def LocalTime_def)
  show ?thesis
    unfolding calculateDayWorkDataAt_def calculateDayWorkData_def a b ..
qed

text \<open>
  \<open>calculateWorkTime\<close> reads the clock, and only for a day without a \<open>clock_out\<close>.
\<close>

lemma calculateWorkTime_clock:
  "clock_out \<in> type ` set records \<Longrightarrow>
     calculateWorkTime now records = calculateWorkTime now' records"
  using find_type_Some [of clock_out records]
  by (auto simp: calculateWorkTime_def Let_def split: option.splits)

lemma dayAcrossZones_in_japan:
  "map_option lateMinutes
     (calculateDayWorkDataAt japanTime dayAcrossZones (Some schedule_9_18) None) = Some 20 \<and>
   map_option earlyLeaveMinutes
     (calculateDayWorkDataAt japanTime dayAcrossZones (Some schedule_9_18) None) = Some 0"
  by (simp add: calculateDayWorkDataAt_def dayAcrossZones_def punch_def textSetting_def
      numberSetting_def setHoursAt_def LocalTime_def UTC_def japanTime_def schedule_9_18_def
      localTime_2025_1_6 splitHourMinute_0900 splitHourMinute_1800 time_defs Let_def)

lemma dayAcrossZones_at_utc:
  "map_option lateMinutes
     (calculateDayWorkDataAt 0 dayAcrossZones (Some schedule_9_18) None) = Some 0 \<and>
   map_option earlyLeaveMinutes
     (calculateDayWorkDataAt 0 dayAcrossZones (Some schedule_9_18) None) = Some 540"
  by (simp add: calculateDayWorkDataAt_def dayAcrossZones_def punch_def textSetting_def
      numberSetting_def setHoursAt_def LocalTime_def UTC_def schedule_9_18_def
      localTime_2025_1_6 splitHourMinute_0900 splitHourMinute_1800 time_defs Let_def)

text \<open>
  Claim C9, as the claim states it, fails: the calculation reads the time zone of its
  host, which is no part of the input. For the same two records and the same schedule
  09:00 to 18:00, a run on a host in Japan gives 20 minutes late and no early leave,
  and a run on a host at UTC gives no lateness and 540 minutes of early leave.
\<close>

theorem same_input_differs_between_host_zones:
  "map_option lateMinutes
     (calculateDayWorkDataAt japanTime dayAcrossZones (Some schedule_9_18) None) = Some 20 \<and>
   map_option lateMinutes
     (calculateDayWorkDataAt 0 dayAcrossZones (Some schedule_9_18) None) = Some 0 \<and>
   map_option earlyLeaveMinutes
     (calculateDayWorkDataAt japanTime dayAcrossZones (Some schedule_9_18) None) = Some 0 \<and>
   map_option earlyLeaveMinutes
     (calculateDayWorkDataAt 0 dayAcrossZones (Some schedule_9_18) None) = Some 540"
  using dayAcrossZones_in_japan dayAcrossZones_at_utc by simp

text \<open>
  Claim C9, amended. The calculation of a day reads no clock and no random source; of
  its surroundings it reads the time zone of the host, and that reaches the figures
  measured against the schedule and the calendar only. For the same records, settings
  and date, two runs on hosts of any two zones agree on whether there is day data at
  all, and on \<open>workMinutes\<close>, \<open>workHours\<close>, \<open>overtimeMinutes\<close> and \<open>overtimeHours\<close>.
\<close>

theorem host_zone_leaves_worked_time:
  "(calculateDayWorkDataAt tza dayRecords employeeConfig date = None) =
     (calculateDayWorkDataAt tza' dayRecords employeeConfig date = None) \<and>
   map_option workMinutes (calculateDayWorkDataAt tza dayRecords employeeConfig date) =
     map_option workMinutes (calculateDayWorkDataAt tza' dayRecords employeeConfig date) \<and>
   map_option workHours (calculateDayWorkDataAt tza dayRecords employeeConfig date) =
     map_option workHours (calculateDayWorkDataAt tza' dayRecords employeeConfig date) \<and>
   map_option overtimeMinutes (calculateDayWorkDataAt tza dayRecords employeeConfig date) =
     map_option overtimeMinutes (calculateDayWorkDataAt tza' dayRecords employeeConfig date) \<and>
   map_option overtimeHours (calculateDayWorkDataAt tza dayRecords employeeConfig date) =
     map_option overtimeHours (calculateDayWorkDataAt tza' dayRecords employeeConfig date)"
  by (simp add: calculateDayWorkDataAt_def Let_def split_beta split: option.splits)

end
